theory Spec2Isabelle
  imports Main
begin

section \<open>Strings and the values of the attribute bag\<close>

text \<open>
  A Go string is a sequence of bytes; so is \<^typ>\<open>string\<close>. The two bytes that the
  mapping codec never escapes are named.
\<close>

definition quote :: char where
  "quote = CHR 0x22"

definition backslash :: char where
  "backslash = CHR 0x5C"

definition byte :: "char \<Rightarrow> nat" where
  "byte c = of_char c"

text \<open>
  \<^verbatim>\<open>interface{}\<close> values held by the attribute bag: the mapping list is a
  \<^verbatim>\<open>[]interface{}\<close> whose elements are \<^verbatim>\<open>map[string]interface{}\<close> blocks
  with scalar fields.
\<close>

datatype tfvalue = TFString string | TFInt int | TFBool bool

type_synonym block = "string \<rightharpoonup> tfvalue"

datatype item = Block block | Scalar tfvalue

text \<open>The run-time panics that the code can reach: a failed type assertion, an index out
  of range, and the panic of the JSON decoder on a literal it cannot unquote.\<close>

datatype panic = TypeAssertion | IndexOutOfRange | DecoderOutOfSync

section \<open>expandTableMapping\<close>

text \<open>The single-value type assertion \<^verbatim>\<open>x.(string)\<close>: it panics on a missing key
  (nil interface) and on a value of another type.\<close>

definition assert_string :: "tfvalue option \<Rightarrow> panic + string" where
  "assert_string v = (case v of Some (TFString s) \<Rightarrow> Inr s | _ \<Rightarrow> Inl TypeAssertion)"

text \<open>The body of the loop of \<^verbatim>\<open>expandTableMapping\<close> for one element \<^verbatim>\<open>v\<close>.\<close>

fun expand_entry :: "item \<Rightarrow> panic + string" where
  "expand_entry (Scalar x) = Inl TypeAssertion"
| \<open>expand_entry (Block block) =
     (case assert_string (block ''column'') of
        Inl p \<Rightarrow> Inl p
      | Inr c \<Rightarrow>
         (case assert_string (block ''path'') of
            Inl p \<Rightarrow> Inl p
          | Inr pa \<Rightarrow>
             (case assert_string (block ''datatype'') of
                Inl p \<Rightarrow> Inl p
              | Inr dt \<Rightarrow>
                 (let mapping = ''"column":"'' @ c @ ''","path":"'' @ pa
                                  @ ''","datatype":"'' @ dt @ ''"'';
                      mapping' = (case block ''transform'' of
                                    Some (TFString t) \<Rightarrow>
                                      (if length t \<noteq> 0
                                       then mapping @ '',"transform":"'' @ t @ ''"''
                                       else mapping)
                                  | _ \<Rightarrow> mapping)
                  in Inr (''{'' @ mapping' @ ''}'')))))\<close>

fun expand_loop :: "item list \<Rightarrow> string list \<Rightarrow> panic + string list" where
  "expand_loop [] mappings = Inr mappings"
| "expand_loop (v # vs) mappings =
     (case expand_entry v of
        Inl p \<Rightarrow> Inl p
      | Inr mapping \<Rightarrow> expand_loop vs (mappings @ [mapping]))"

text \<open>\<^verbatim>\<open>strings.Join\<close>.\<close>

fun Join :: "string list \<Rightarrow> string \<Rightarrow> string" where
  "Join [] sep = []"
| "Join [x] sep = x"
| "Join (x # y # ys) sep = x @ sep @ Join (y # ys) sep"

definition expandTableMapping :: "item list \<Rightarrow> panic + string" where
  "expandTableMapping input =
     (if length input = 0 then Inr []
      else case expand_loop input [] of
             Inl p \<Rightarrow> Inl p
           | Inr mappings \<Rightarrow> Inr (Join mappings '',''))"


section \<open>The JSON decoder used by flattenTableMapping\<close>

text \<open>
  \<^verbatim>\<open>flattenTableMapping\<close> hands its input to \<^verbatim>\<open>json.Unmarshal\<close> of Go's
  \<^verbatim>\<open>encoding/json\<close> with the target type \<^verbatim>\<open>[]Mapping\<close>. The decoder is
  modelled in the three phases it has: the scanner that validates the whole input before
  anything is stored (\<^verbatim>\<open>checkValid\<close>), the unquoting of string literals
  (\<^verbatim>\<open>unquoteBytes\<close>), and the stores into the target value, which save the first
  type error and go on.
\<close>

subsection \<open>UTF-8 (package unicode/utf8)\<close>

text \<open>Runes are natural numbers. A mask \<^verbatim>\<open>p & 0x3F\<close> is written \<open>p mod 64\<close>, a shift
  \<^verbatim>\<open>x << 6\<close> is \<open>x * 64\<close>, and the bitwise or of disjoint bit ranges is \<open>+\<close>.\<close>

definition RuneError :: nat where
  "RuneError = 0xFFFD"

fun DecodeRune :: "string \<Rightarrow> nat \<times> nat" where
  "DecodeRune [] = (RuneError, 0)"
| "DecodeRune (c0 # p) =
     (let p0 = byte c0 in
      if p0 < 0x80 then (p0, 1)
      else if p0 < 0xC2 \<or> 0xF4 < p0 then (RuneError, 1)
      else
        let sz = (if p0 < 0xE0 then 2 else if p0 < 0xF0 then 3 else (4::nat));
            lo = (if p0 = 0xE0 then 0xA0 else if p0 = 0xF0 then 0x90 else 0x80);
            hi = (if p0 = 0xED then 0x9F else if p0 = 0xF4 then 0x8F else 0xBF)
        in if length (c0 # p) < sz then (RuneError, 1)
           else
             let b1 = byte (p ! 0) in
             if b1 < lo \<or> hi < b1 then (RuneError, 1)
             else if sz \<le> 2 then ((p0 mod 32) * 64 + b1 mod 64, 2)
             else
               let b2 = byte (p ! 1) in
               if b2 < 0x80 \<or> 0xBF < b2 then (RuneError, 1)
               else if sz \<le> 3 then ((p0 mod 16) * 4096 + (b1 mod 64) * 64 + b2 mod 64, 3)
               else
                 let b3 = byte (p ! 2) in
                 if b3 < 0x80 \<or> 0xBF < b3 then (RuneError, 1)
                 else ((p0 mod 8) * 262144 + (b1 mod 64) * 4096 + (b2 mod 64) * 64
                         + b3 mod 64, 4))"

definition EncodeRune :: "nat \<Rightarrow> string" where
  "EncodeRune r =
     (if r \<le> 0x7F then [char_of r]
      else if r \<le> 0x7FF then [char_of (0xC0 + r div 64), char_of (0x80 + r mod 64)]
      else if 0x10FFFF < r \<or> (0xD800 \<le> r \<and> r \<le> 0xDFFF) then [CHR 0xEF, CHR 0xBF, CHR 0xBD]
      else if r \<le> 0xFFFF then
        [char_of (0xE0 + r div 4096), char_of (0x80 + (r div 64) mod 64), char_of (0x80 + r mod 64)]
      else
        [char_of (0xF0 + r div 262144), char_of (0x80 + (r div 4096) mod 64),
         char_of (0x80 + (r div 64) mod 64), char_of (0x80 + r mod 64)])"

text \<open>\<^verbatim>\<open>utf8.Valid\<close>: no position decodes to the error rune with width one.\<close>

function Valid :: "string \<Rightarrow> bool" where
  "Valid [] = True"
| "Valid (c # cs) =
     (case DecodeRune (c # cs) of (rr, w) \<Rightarrow>
        if rr = RuneError \<and> w = 1 then False else Valid (drop w (c # cs)))"
  by pat_completeness auto
termination
  by (relation "measure length") (auto simp: Let_def split: if_splits)

subsection \<open>Unquoting a string literal (unquoteBytes)\<close>

definition hexval :: "char \<Rightarrow> nat option" where
  "hexval c =
     (if byte CHR ''0'' \<le> byte c \<and> byte c \<le> byte CHR ''9'' then Some (byte c - byte CHR ''0'')
      else if byte CHR ''a'' \<le> byte c \<and> byte c \<le> byte CHR ''f'' then Some (byte c - byte CHR ''a'' + 10)
      else if byte CHR ''A'' \<le> byte c \<and> byte c \<le> byte CHR ''F'' then Some (byte c - byte CHR ''A'' + 10)
      else None)"

fun hexdigits :: "nat \<Rightarrow> string \<Rightarrow> nat option" where
  "hexdigits r [] = Some r"
| "hexdigits r (c # cs) = (case hexval c of None \<Rightarrow> None | Some d \<Rightarrow> hexdigits (r * 16 + d) cs)"

text \<open>\<^verbatim>\<open>getu4\<close>: the rune of a leading \<^verbatim>\<open>\uXXXX\<close>, \<open>None\<close> for Go's \<open>-1\<close>.\<close>

definition getu4 :: "string \<Rightarrow> nat option" where
  "getu4 s =
     (if length s < 6 \<or> s ! 0 \<noteq> backslash \<or> s ! 1 \<noteq> CHR ''u'' then None
      else hexdigits 0 (take 4 (drop 2 s)))"

definition IsSurrogate :: "nat \<Rightarrow> bool" where
  "IsSurrogate r = (0xD800 \<le> r \<and> r < 0xE000)"

text \<open>\<^verbatim>\<open>utf16.DecodeRune\<close>; the second argument is \<open>None\<close> when \<^verbatim>\<open>getu4\<close> gave \<open>-1\<close>.\<close>

definition utf16_DecodeRune :: "nat \<Rightarrow> nat option \<Rightarrow> nat" where
  "utf16_DecodeRune r1 r2o =
     (case r2o of
        None \<Rightarrow> RuneError
      | Some r2 \<Rightarrow>
          if 0xD800 \<le> r1 \<and> r1 < 0xDC00 \<and> 0xDC00 \<le> r2 \<and> r2 < 0xE000
          then (r1 - 0xD800) * 1024 + (r2 - 0xDC00) + 0x10000
          else RuneError)"

text \<open>The first loop of \<^verbatim>\<open>unquoteBytes\<close>: the index at which the first unusual byte
  (backslash, quote, control byte, malformed UTF-8) stands.\<close>

function plain_prefix :: "string \<Rightarrow> nat" where
  "plain_prefix [] = 0"
| "plain_prefix (c # cs) =
     (if c = backslash \<or> c = quote \<or> byte c < 0x20 then 0
      else if byte c < 0x80 then 1 + plain_prefix cs
      else case DecodeRune (c # cs) of (rr, w) \<Rightarrow>
             if rr = RuneError \<and> w = 1 then 0
             else w + plain_prefix (drop w (c # cs)))"
  by pat_completeness auto
termination
  by (relation "measure length") (auto simp: Let_def split: if_splits)

text \<open>The second loop: the bytes written for the rest of the literal, \<open>None\<close> where
  \<^verbatim>\<open>unquoteBytes\<close> returns \<^verbatim>\<open>ok = false\<close>.\<close>

definition simple_escape :: "char \<Rightarrow> char option" where
  "simple_escape e =
     (if e = quote \<or> e = backslash \<or> e = CHR ''/'' \<or> e = CHR 0x27 then Some e
      else if e = CHR ''b'' then Some (CHR 0x08)
      else if e = CHR ''f'' then Some (CHR 0x0C)
      else if e = CHR ''n'' then Some (CHR 0x0A)
      else if e = CHR ''r'' then Some (CHR 0x0D)
      else if e = CHR ''t'' then Some (CHR 0x09)
      else None)"

function unquote_loop :: "string \<Rightarrow> string option" where
  "unquote_loop [] = Some []"
| "unquote_loop (c # cs) =
     (if c = backslash then
        (case cs of
           [] \<Rightarrow> None
         | e # rest \<Rightarrow>
             if e = CHR ''u'' then
               (case getu4 (c # cs) of
                  None \<Rightarrow> None
                | Some rr \<Rightarrow>
                    if IsSurrogate rr then
                      (let dec = utf16_DecodeRune rr (getu4 (drop 6 (c # cs))) in
                       if dec \<noteq> RuneError
                       then map_option ((@) (EncodeRune dec)) (unquote_loop (drop 12 (c # cs)))
                       else map_option ((@) (EncodeRune RuneError)) (unquote_loop (drop 6 (c # cs))))
                    else map_option ((@) (EncodeRune rr)) (unquote_loop (drop 6 (c # cs))))
             else
               (case simple_escape e of
                  None \<Rightarrow> None
                | Some b \<Rightarrow> map_option ((#) b) (unquote_loop rest)))
      else if c = quote \<or> byte c < 0x20 then None
      else if byte c < 0x80 then map_option ((#) c) (unquote_loop cs)
      else case DecodeRune (c # cs) of (rr, w) \<Rightarrow>
             map_option ((@) (EncodeRune rr)) (unquote_loop (drop w (c # cs))))"
  by pat_completeness auto
termination
  by (relation "measure length") (auto simp: Let_def split: if_splits)

definition unquote :: "string \<Rightarrow> string option" where
  "unquote s =
     (let r = plain_prefix s in
      if r = length s then Some s
      else map_option ((@) (take r s)) (unquote_loop (drop r s)))"


subsection \<open>The scanner (checkValid)\<close>

text \<open>
  The scanner of \<^verbatim>\<open>encoding/json\<close> is a state machine over the bytes of the input with
  a stack of open arrays and objects. It is modelled in two layers with the scanner's own
  state names: \<open>lexer\<close> runs the states inside a literal (string, number, \<^verbatim>\<open>true\<close>,
  \<^verbatim>\<open>false\<close>, \<^verbatim>\<open>null\<close>) and cuts the input into tokens; \<open>parse_step\<close> runs the
  states between values and keeps the stack, on which the value read so far is built. An
  input that the scanner rejects is one on which either layer returns \<open>None\<close>.
\<close>

datatype token =
  TLBrace | TRBrace | TLBracket | TRBracket | TColon | TComma
| TString string | TNumber | TTrue | TFalse | TNull

datatype lexstate =
  Idle
| InString string | InStringEsc string | InStringEscU nat string
| Neg | Num1 | Num0 | Dot | Dot0 | E | ESign | E0
| Lit token string

definition isSpace :: "char \<Rightarrow> bool" where
  "isSpace c = (c = CHR '' '' \<or> c = CHR 0x09 \<or> c = CHR 0x0D \<or> c = CHR 0x0A)"

definition isDigit :: "char \<Rightarrow> bool" where
  "isDigit c = (byte CHR ''0'' \<le> byte c \<and> byte c \<le> byte CHR ''9'')"

definition isDigit19 :: "char \<Rightarrow> bool" where
  "isDigit19 c = (byte CHR ''1'' \<le> byte c \<and> byte c \<le> byte CHR ''9'')"

definition isHex :: "char \<Rightarrow> bool" where
  "isHex c = (hexval c \<noteq> None)"

definition isEscape :: "char \<Rightarrow> bool" where
  "isEscape c = (c = CHR ''b'' \<or> c = CHR ''f'' \<or> c = CHR ''n'' \<or> c = CHR ''r'' \<or> c = CHR ''t''
                  \<or> c = backslash \<or> c = CHR ''/'' \<or> c = quote)"

text \<open>\<^verbatim>\<open>stateEndValue\<close> on the byte that ends a number: white space, or the comma or
  closing bracket that may follow a value.\<close>

definition delim :: "char \<Rightarrow> token list option" where
  "delim c =
     (if isSpace c then Some []
      else if c = CHR '','' then Some [TComma]
      else if c = CHR '']'' then Some [TRBracket]
      else if c = CHR ''}'' then Some [TRBrace]
      else None)"

definition emit :: "token list \<Rightarrow> token list option \<Rightarrow> token list option" where
  "emit ts r = map_option ((@) ts) r"

fun lexer :: "lexstate \<Rightarrow> string \<Rightarrow> token list option" where
  "lexer Idle [] = Some []"
| "lexer Idle (c # cs) =
     (if isSpace c then lexer Idle cs
      else if c = CHR ''{'' then emit [TLBrace] (lexer Idle cs)
      else if c = CHR ''}'' then emit [TRBrace] (lexer Idle cs)
      else if c = CHR ''['' then emit [TLBracket] (lexer Idle cs)
      else if c = CHR '']'' then emit [TRBracket] (lexer Idle cs)
      else if c = CHR '':'' then emit [TColon] (lexer Idle cs)
      else if c = CHR '','' then emit [TComma] (lexer Idle cs)
      else if c = quote then lexer (InString []) cs
      else if c = CHR ''-'' then lexer Neg cs
      else if c = CHR ''0'' then lexer Num0 cs
      else if isDigit19 c then lexer Num1 cs
      else if c = CHR ''t'' then lexer (Lit TTrue ''rue'') cs
      else if c = CHR ''f'' then lexer (Lit TFalse ''alse'') cs
      else if c = CHR ''n'' then lexer (Lit TNull ''ull'') cs
      else None)"
| "lexer (InString raw) [] = None"
| "lexer (InString raw) (c # cs) =
     (if c = quote then emit [TString raw] (lexer Idle cs)
      else if c = backslash then lexer (InStringEsc (raw @ [c])) cs
      else if byte c < 0x20 then None
      else lexer (InString (raw @ [c])) cs)"
| "lexer (InStringEsc raw) [] = None"
| "lexer (InStringEsc raw) (c # cs) =
     (if isEscape c then lexer (InString (raw @ [c])) cs
      else if c = CHR ''u'' then lexer (InStringEscU 0 (raw @ [c])) cs
      else None)"
| "lexer (InStringEscU k raw) [] = None"
| "lexer (InStringEscU k raw) (c # cs) =
     (if isHex c then
        (if k < 3 then lexer (InStringEscU (k + 1) (raw @ [c])) cs
         else lexer (InString (raw @ [c])) cs)
      else None)"
| "lexer Neg [] = None"
| "lexer Neg (c # cs) =
     (if c = CHR ''0'' then lexer Num0 cs
      else if isDigit19 c then lexer Num1 cs
      else None)"
| "lexer Num1 [] = Some [TNumber]"
| "lexer Num1 (c # cs) =
     (if isDigit c then lexer Num1 cs
      else if c = CHR ''.'' then lexer Dot cs
      else if c = CHR ''e'' \<or> c = CHR ''E'' then lexer E cs
      else case delim c of None \<Rightarrow> None | Some ts \<Rightarrow> emit (TNumber # ts) (lexer Idle cs))"
| "lexer Num0 [] = Some [TNumber]"
| "lexer Num0 (c # cs) =
     (if c = CHR ''.'' then lexer Dot cs
      else if c = CHR ''e'' \<or> c = CHR ''E'' then lexer E cs
      else case delim c of None \<Rightarrow> None | Some ts \<Rightarrow> emit (TNumber # ts) (lexer Idle cs))"
| "lexer Dot [] = None"
| "lexer Dot (c # cs) = (if isDigit c then lexer Dot0 cs else None)"
| "lexer Dot0 [] = Some [TNumber]"
| "lexer Dot0 (c # cs) =
     (if isDigit c then lexer Dot0 cs
      else if c = CHR ''e'' \<or> c = CHR ''E'' then lexer E cs
      else case delim c of None \<Rightarrow> None | Some ts \<Rightarrow> emit (TNumber # ts) (lexer Idle cs))"
| "lexer E [] = None"
| "lexer E (c # cs) =
     (if c = CHR ''+'' \<or> c = CHR ''-'' then lexer ESign cs
      else if isDigit c then lexer E0 cs
      else None)"
| "lexer ESign [] = None"
| "lexer ESign (c # cs) = (if isDigit c then lexer E0 cs else None)"
| "lexer E0 [] = Some [TNumber]"
| "lexer E0 (c # cs) =
     (if isDigit c then lexer E0 cs
      else case delim c of None \<Rightarrow> None | Some ts \<Rightarrow> emit (TNumber # ts) (lexer Idle cs))"
| "lexer (Lit t rest) [] = None"
| "lexer (Lit t []) (c # cs) = None"
| "lexer (Lit t [x]) (c # cs) = (if c = x then emit [t] (lexer Idle cs) else None)"
| "lexer (Lit t (x # y # ys)) (c # cs) = (if c = x then lexer (Lit t (y # ys)) cs else None)"

text \<open>The values; a string keeps the raw bytes of its literal (between the quotes), which
  the decoder unquotes when it stores them.\<close>

datatype json =
  JNull | JBool bool | JNumber | JString string
| JArray "json list" | JObject "(string \<times> json) list"

datatype frame =
  InArray "json list"
| InObject "(string \<times> json) list"
| InMember "(string \<times> json) list" string

datatype step =
  BeginValue | BeginValueOrEmpty | BeginStringOrEmpty | BeginString
| EndKey | EndValue | EndTop json

definition maxNestingDepth :: nat where
  "maxNestingDepth = 10000"

definition pushParseState :: "frame \<Rightarrow> step \<Rightarrow> frame list \<Rightarrow> (step \<times> frame list) option" where
  "pushParseState f successState st =
     (if length (f # st) \<le> maxNestingDepth then Some (successState, f # st) else None)"

text \<open>A value has ended: it goes to the top level, to the open array, or to the member
  whose key was read.\<close>

fun end_value :: "json \<Rightarrow> frame list \<Rightarrow> (step \<times> frame list) option" where
  "end_value v [] = Some (EndTop v, [])"
| "end_value v (InArray xs # st) = Some (EndValue, InArray (xs @ [v]) # st)"
| "end_value v (InMember ms k # st) = Some (EndValue, InObject (ms @ [(k, v)]) # st)"
| "end_value v (InObject ms # st) = None"

definition begin_value :: "token \<Rightarrow> frame list \<Rightarrow> (step \<times> frame list) option" where
  "begin_value t st =
     (case t of
        TLBracket \<Rightarrow> pushParseState (InArray []) BeginValueOrEmpty st
      | TLBrace \<Rightarrow> pushParseState (InObject []) BeginStringOrEmpty st
      | TString raw \<Rightarrow> end_value (JString raw) st
      | TNumber \<Rightarrow> end_value JNumber st
      | TTrue \<Rightarrow> end_value (JBool True) st
      | TFalse \<Rightarrow> end_value (JBool False) st
      | TNull \<Rightarrow> end_value JNull st
      | _ \<Rightarrow> None)"

definition begin_string :: "token \<Rightarrow> frame list \<Rightarrow> (step \<times> frame list) option" where
  "begin_string t st =
     (case t of
        TString raw \<Rightarrow>
          (case st of InObject ms # st' \<Rightarrow> Some (EndKey, InMember ms raw # st') | _ \<Rightarrow> None)
      | _ \<Rightarrow> None)"

definition close_array :: "frame list \<Rightarrow> (step \<times> frame list) option" where
  "close_array st = (case st of InArray xs # st' \<Rightarrow> end_value (JArray xs) st' | _ \<Rightarrow> None)"

definition close_object :: "frame list \<Rightarrow> (step \<times> frame list) option" where
  "close_object st = (case st of InObject ms # st' \<Rightarrow> end_value (JObject ms) st' | _ \<Rightarrow> None)"

fun parse_step :: "step \<Rightarrow> frame list \<Rightarrow> token \<Rightarrow> (step \<times> frame list) option" where
  "parse_step BeginValue st t = begin_value t st"
| "parse_step BeginValueOrEmpty st t =
     (if t = TRBracket then close_array st else begin_value t st)"
| "parse_step BeginStringOrEmpty st t =
     (if t = TRBrace then close_object st else begin_string t st)"
| "parse_step BeginString st t = begin_string t st"
| "parse_step EndKey st t = (if t = TColon then Some (BeginValue, st) else None)"
| "parse_step EndValue st t =
     (if t = TComma then
        (case st of
           InArray xs # st' \<Rightarrow> Some (BeginValue, st)
         | InObject ms # st' \<Rightarrow> Some (BeginString, st)
         | _ \<Rightarrow> None)
      else if t = TRBracket then close_array st
      else if t = TRBrace then close_object st
      else None)"
| "parse_step (EndTop v) st t = None"

text \<open>At the end of the input (\<^verbatim>\<open>scanner.eof\<close>) the top-level value must be complete.\<close>

fun parse_run :: "step \<Rightarrow> frame list \<Rightarrow> token list \<Rightarrow> json option" where
  "parse_run (EndTop v) st [] = Some v"
| "parse_run s st [] = None"
| "parse_run s st (t # ts) =
     (case parse_step s st t of None \<Rightarrow> None | Some (s', st') \<Rightarrow> parse_run s' st' ts)"

definition checkValid :: "string \<Rightarrow> json option" where
  "checkValid data =
     (case lexer Idle data of None \<Rightarrow> None | Some ts \<Rightarrow> parse_run BeginValue [] ts)"


subsection \<open>Storing into a value of type []Mapping\<close>

text \<open>The struct \<^verbatim>\<open>Mapping\<close> with its four string fields and their JSON names.\<close>

record Mapping =
  Column :: string
  Path :: string
  DataType :: string
  Transform :: string

definition zeroMapping :: Mapping where
  "zeroMapping = \<lparr>Column = [], Path = [], DataType = [], Transform = []\<rparr>"

datatype field = FColumn | FPath | FDataType | FTransform

fun field_name :: "field \<Rightarrow> string" where
  "field_name FColumn = ''column''"
| "field_name FPath = ''path''"
| "field_name FDataType = ''datatype''"
| "field_name FTransform = ''transform''"

fun get_field :: "field \<Rightarrow> Mapping \<Rightarrow> string" where
  "get_field FColumn m = Column m"
| "get_field FPath m = Path m"
| "get_field FDataType m = DataType m"
| "get_field FTransform m = Transform m"

fun set_field :: "field \<Rightarrow> string \<Rightarrow> Mapping \<Rightarrow> Mapping" where
  "set_field FColumn s m = m\<lparr>Column := s\<rparr>"
| "set_field FPath s m = m\<lparr>Path := s\<rparr>"
| "set_field FDataType s m = m\<lparr>DataType := s\<rparr>"
| "set_field FTransform s m = m\<lparr>Transform := s\<rparr>"

text \<open>
  \<^verbatim>\<open>foldName\<close>: the key under which a name is compared when no field has exactly that
  name. ASCII letters go to upper case; the two runes outside ASCII that fold to an ASCII
  letter, U+017F (bytes C5 BF, to \<open>S\<close>) and U+212A (bytes E2 84 AA, to \<open>K\<close>), go to that
  letter. Every other rune outside ASCII folds to a rune outside ASCII and can never
  equal a byte of a field name, all of which are ASCII; its bytes are kept.
\<close>

fun foldName :: "string \<Rightarrow> string" where
  "foldName [] = []"
| "foldName (c # cs) =
     (if byte c < 0x80 then
        (if byte CHR ''a'' \<le> byte c \<and> byte c \<le> byte CHR ''z''
         then char_of (byte c - 32) else c) # foldName cs
      else if take 2 (c # cs) = [CHR 0xC5, CHR 0xBF] then CHR ''S'' # foldName (drop 1 cs)
      else if take 3 (c # cs) = [CHR 0xE2, CHR 0x84, CHR 0xAA] then CHR ''K'' # foldName (drop 2 cs)
      else c # foldName cs)"

definition fields :: "field list" where
  "fields = [FColumn, FPath, FDataType, FTransform]"

definition find_field :: "string \<Rightarrow> field option" where
  "find_field key =
     (case find (\<lambda>f. field_name f = key) fields of
        Some f \<Rightarrow> Some f
      | None \<Rightarrow> find (\<lambda>f. foldName (field_name f) = foldName key) fields)"

datatype json_error = SyntaxError | UnmarshalTypeError string

text \<open>\<^verbatim>\<open>saveError\<close> keeps the first error; decoding goes on.\<close>

definition saveError :: "json_error \<Rightarrow> json_error option \<Rightarrow> json_error option" where
  "saveError e saved = (case saved of None \<Rightarrow> Some e | Some e0 \<Rightarrow> Some e0)"

text \<open>
  A string literal that is stored is unquoted first, whatever the kind of the target;
  \<^verbatim>\<open>literalStore\<close> and \<^verbatim>\<open>object\<close> panic (``JSON decoder out of sync'') when
  \<^verbatim>\<open>unquoteBytes\<close> fails.
\<close>

definition unquote_or_panic :: "string \<Rightarrow> panic + string" where
  "unquote_or_panic raw = (case unquote raw of None \<Rightarrow> Inl DecoderOutOfSync | Some s \<Rightarrow> Inr s)"

text \<open>A value stored into a field of kind string.\<close>

fun store_string :: "json \<Rightarrow> json_error option \<Rightarrow> string \<Rightarrow> panic + (json_error option \<times> string)" where
  "store_string (JString raw) saved cur =
     (case unquote_or_panic raw of Inl p \<Rightarrow> Inl p | Inr s \<Rightarrow> Inr (saved, s))"
| "store_string JNull saved cur = Inr (saved, cur)"
| "store_string (JBool b) saved cur = Inr (saveError (UnmarshalTypeError ''bool'') saved, cur)"
| "store_string JNumber saved cur = Inr (saveError (UnmarshalTypeError ''number'') saved, cur)"
| "store_string (JArray xs) saved cur = Inr (saveError (UnmarshalTypeError ''array'') saved, cur)"
| "store_string (JObject ms) saved cur = Inr (saveError (UnmarshalTypeError ''object'') saved, cur)"

text \<open>The members of an object stored into a \<^verbatim>\<open>Mapping\<close>, in their order; a member with
  an unknown key is skipped.\<close>

fun store_members ::
  "(string \<times> json) list \<Rightarrow> json_error option \<Rightarrow> Mapping \<Rightarrow> panic + (json_error option \<times> Mapping)" where
  "store_members [] saved m = Inr (saved, m)"
| "store_members ((rawkey, v) # ms) saved m =
     (case unquote_or_panic rawkey of
        Inl p \<Rightarrow> Inl p
      | Inr key \<Rightarrow>
         (case find_field key of
            None \<Rightarrow> store_members ms saved m
          | Some f \<Rightarrow>
             (case store_string v saved (get_field f m) of
                Inl p \<Rightarrow> Inl p
              | Inr (saved', s) \<Rightarrow> store_members ms saved' (set_field f s m))))"

text \<open>An element of the array stored into a \<^verbatim>\<open>Mapping\<close>.\<close>

fun store_struct :: "json \<Rightarrow> json_error option \<Rightarrow> Mapping \<Rightarrow> panic + (json_error option \<times> Mapping)" where
  "store_struct (JObject ms) saved m = store_members ms saved m"
| "store_struct JNull saved m = Inr (saved, m)"
| "store_struct (JString raw) saved m =
     (case unquote_or_panic raw of
        Inl p \<Rightarrow> Inl p
      | Inr s \<Rightarrow> Inr (saveError (UnmarshalTypeError ''string'') saved, m))"
| "store_struct (JBool b) saved m = Inr (saveError (UnmarshalTypeError ''bool'') saved, m)"
| "store_struct JNumber saved m = Inr (saveError (UnmarshalTypeError ''number'') saved, m)"
| "store_struct (JArray xs) saved m = Inr (saveError (UnmarshalTypeError ''array'') saved, m)"

text \<open>The loop of \<^verbatim>\<open>array\<close>: every element is decoded into a fresh zero
  \<^verbatim>\<open>Mapping\<close> at the end of the slice.\<close>

fun store_elems ::
  "json list \<Rightarrow> json_error option \<Rightarrow> Mapping list \<Rightarrow> panic + (json_error option \<times> Mapping list)" where
  "store_elems [] saved out = Inr (saved, out)"
| "store_elems (x # xs) saved out =
     (case store_struct x saved zeroMapping of
        Inl p \<Rightarrow> Inl p
      | Inr (saved', m) \<Rightarrow> store_elems xs saved' (out @ [m]))"

text \<open>The top-level value stored into the slice, which is nil before the call.\<close>

fun store_slice :: "json \<Rightarrow> panic + (json_error option \<times> Mapping list)" where
  "store_slice (JArray xs) = store_elems xs None []"
| "store_slice JNull = Inr (None, [])"
| "store_slice (JString raw) =
     (case unquote_or_panic raw of
        Inl p \<Rightarrow> Inl p
      | Inr s \<Rightarrow> Inr (Some (UnmarshalTypeError ''string''), []))"
| "store_slice (JBool b) = Inr (Some (UnmarshalTypeError ''bool''), [])"
| "store_slice JNumber = Inr (Some (UnmarshalTypeError ''number''), [])"
| "store_slice (JObject ms) = Inr (Some (UnmarshalTypeError ''object''), [])"

text \<open>\<^verbatim>\<open>json.Unmarshal(data, &oMappings)\<close>: the returned error and the slice afterwards.\<close>

definition Unmarshal :: "string \<Rightarrow> panic + (json_error option \<times> Mapping list)" where
  "Unmarshal data =
     (case checkValid data of
        None \<Rightarrow> Inr (Some SyntaxError, [])
      | Some v \<Rightarrow> store_slice v)"

section \<open>flattenTableMapping\<close>

definition flatten_block :: "Mapping \<Rightarrow> block" where
  "flatten_block v =
     Map.empty(''column'' \<mapsto> TFString (Column v), ''path'' \<mapsto> TFString (Path v),
               ''datatype'' \<mapsto> TFString (DataType v), ''transform'' \<mapsto> TFString (Transform v))"

fun flatten_loop :: "Mapping list \<Rightarrow> item list \<Rightarrow> item list" where
  "flatten_loop [] mappings = mappings"
| "flatten_loop (v # vs) mappings = flatten_loop vs (mappings @ [Block (flatten_block v)])"

text \<open>The error that \<^verbatim>\<open>json.Unmarshal\<close> returns is dropped.\<close>

definition flattenTableMapping :: "string \<Rightarrow> panic + item list" where
  "flattenTableMapping input =
     (if length input = 0 then Inr []
      else case Unmarshal input of
             Inl p \<Rightarrow> Inl p
           | Inr (err, oMappings) \<Rightarrow> Inr (flatten_loop oMappings []))"


section \<open>The resource: identifiers, client and attribute bag\<close>

text \<open>
  \<^verbatim>\<open>strings.ToLower\<close>: a string of ASCII bytes is lowered byte by byte; any other
  string goes through \<^verbatim>\<open>strings.Map(unicode.ToLower, s)\<close>, whose Unicode tables are
  outside the repository and are the parameter \<open>unicode_lower\<close>.
\<close>

definition lower_ascii :: "char \<Rightarrow> char" where
  "lower_ascii c =
     (if byte CHR ''A'' \<le> byte c \<and> byte c \<le> byte CHR ''Z'' then char_of (byte c + 32) else c)"

definition isASCII :: "string \<Rightarrow> bool" where
  "isASCII s = list_all (\<lambda>c. byte c < 0x80) s"

definition ToLower :: "(string \<Rightarrow> string) \<Rightarrow> string \<Rightarrow> string" where
  "ToLower unicode_lower s = (if isASCII s then map lower_ascii s else unicode_lower s)"

definition apostrophe :: char where
  "apostrophe = CHR 0x27"

definition pipe :: char where
  "pipe = CHR ''|''"

text \<open>The row type of the \<^verbatim>\<open>.show\<close> response.\<close>

datatype DateTime = DateTime int bool

record TableMapping =
  Name :: string
  Kind :: string
  Mapping :: string
  LastUpdatedOn :: DateTime
  Table :: string
  Database :: string

text \<open>
  A row of the response either converts (\<^verbatim>\<open>row.ToStruct\<close>) or fails to; the iterator
  itself may fail at some row. \<^verbatim>\<open>resp.Do\<close> stops at the first error.
\<close>

datatype row = RowOk TableMapping | RowBad string | IterFail string

type_synonym RowIterator = "row list"

text \<open>
  The diagnostics, one constructor for each message of the source with the values it is
  formatted from: \<^verbatim>\<open>error creating Mapping %q (Table %q, Database %q): %+v\<close>,
  \<^verbatim>\<open>error reading Table %q (Database %q): %+v\<close>,
  \<^verbatim>\<open>error deleting Table Mapping %q (Table %q, Database %q): %+v\<close>,
  \<^verbatim>\<open>error parsing Table schema for Table %q (Database %q): %+v\<close>, the error of
  the row iterator, the error of the ID parser (\<^verbatim>\<open>diag.FromErr\<close>), and the error
  of a validator for an attribute.
\<close>

datatype diagnostic =
  ErrorCreatingMapping string string string string
| ErrorReadingTable string string string
| ErrorDeletingMapping string string string string
| ErrorParsingSchema string string string
| IterationError string
| IDParseError string
| ValidationError string

text \<open>
  The Kusto client of \<^verbatim>\<open>meta.(*Meta).Kusto\<close>: its endpoint, and \<^verbatim>\<open>Mgmt\<close>, which
  takes the database and the statement and answers from the state \<open>'k\<close> of the cluster,
  which it may change. The world keeps that state and the statements submitted so far.
\<close>

record 'k Meta =
  Endpoint :: string
  Mgmt :: "'k \<Rightarrow> string \<Rightarrow> string \<Rightarrow> (string + RowIterator) \<times> 'k"

record 'k world =
  server :: 'k
  sent :: "(string \<times> string) list"

definition client_Mgmt ::
  "'k Meta \<Rightarrow> 'k world \<Rightarrow> string \<Rightarrow> string \<Rightarrow> (string + RowIterator) \<times> 'k world" where
  "client_Mgmt meta w database stmt =
     (case Mgmt meta (server w) database stmt of
        (r, k') \<Rightarrow> (r, w\<lparr>server := k', sent := sent w @ [(database, stmt)]\<rparr>))"

text \<open>\<^verbatim>\<open>schema.ResourceData\<close>: the ID and the attributes of the schema, each of the type
  the schema gives it; \<open>attr_last_updated_on\<close> holds the value handed to \<^verbatim>\<open>d.Set\<close>.\<close>

record ResourceData =
  Id :: string
  attr_name :: string
  attr_database_name :: string
  attr_table_name :: string
  attr_kind :: string
  attr_mapping :: "item list"
  attr_last_updated_on :: "DateTime option"

subsection \<open>The resource ID\<close>

text \<open>\<^verbatim>\<open>strings.Split\<close> on a one-byte separator.\<close>

fun Split :: "string \<Rightarrow> char \<Rightarrow> string list" where
  "Split [] sep = [[]]"
| "Split (c # cs) sep =
     (if c = sep then [] # Split cs sep
      else case Split cs sep of
             x # xs \<Rightarrow> (c # x) # xs
           | [] \<Rightarrow> [[c]])"

text \<open>
  Modelled from the spec: the struct that \<^verbatim>\<open>parseADXTableMappingID\<close> returns is
  declared outside the source file; Read and Delete use its fields \<^verbatim>\<open>TableName\<close>,
  \<^verbatim>\<open>Kind\<close>, \<^verbatim>\<open>Name\<close> and \<^verbatim>\<open>DatabaseName\<close>, and the spec's wire
  format has the endpoint first.
\<close>

record adxTableMappingID =
  IdEndpoint :: string
  IdDatabaseName :: string
  IdTableName :: string
  IdKind :: string
  IdName :: string

text \<open>
  Modelled from the spec: \<^verbatim>\<open>parseADXTableMappingID\<close> is called by Read and Delete and
  is not in the source file. The spec gives the wire format
  \<^verbatim>\<open>{endpoint}|{database}|{table}|{lowercased-kind}|{name}\<close>: five fields,
  pipe-delimited, parsed positionally; a wrong field count is a fatal parse error.
\<close>

definition parseADXTableMappingID :: "string \<Rightarrow> string + adxTableMappingID" where
  "parseADXTableMappingID input =
     (let parts = Split input pipe in
      if length parts = 5 then
        Inr \<lparr>IdEndpoint = parts ! 0, IdDatabaseName = parts ! 1, IdTableName = parts ! 2,
             IdKind = parts ! 3, IdName = parts ! 4\<rparr>
      else Inl input)"

text \<open>The ID that Create/Update formats: \<^verbatim>\<open>fmt.Sprintf("%s|%s|%s|%s|%s", ...)\<close>.\<close>

definition formatID :: "string \<Rightarrow> string \<Rightarrow> string \<Rightarrow> string \<Rightarrow> string \<Rightarrow> string" where
  "formatID endpoint databaseName tableName kind name =
     endpoint @ [pipe] @ databaseName @ [pipe] @ tableName @ [pipe] @ kind @ [pipe] @ name"

subsection \<open>The statements\<close>

definition createStatement :: "string \<Rightarrow> string \<Rightarrow> string \<Rightarrow> string \<Rightarrow> string" where
  "createStatement tableName kind name mapping =
     ''.create-or-alter table '' @ tableName @ '' ingestion '' @ kind @ '' mapping ''
       @ [apostrophe] @ name @ [apostrophe] @ '' '' @ [apostrophe] @ ''['' @ mapping @ '']''
       @ [apostrophe]"

definition showStatement :: "string \<Rightarrow> string \<Rightarrow> string \<Rightarrow> string" where
  "showStatement tableName kind name =
     ''.show table '' @ tableName @ '' ingestion '' @ kind @ '' mapping ''
       @ [apostrophe] @ name @ [apostrophe]"

definition deleteStatement :: "string \<Rightarrow> string \<Rightarrow> string \<Rightarrow> string" where
  "deleteStatement tableName kind name =
     ''.drop table '' @ tableName @ '' ingestion '' @ kind @ '' mapping ''
       @ [apostrophe] @ name @ [apostrophe]"

section \<open>Read, Create/Update and Delete\<close>

text \<open>\<^verbatim>\<open>resp.Do\<close> with the callback of Read, which appends each converted row to
  \<^verbatim>\<open>schemas\<close>.\<close>

fun Do :: "RowIterator \<Rightarrow> adxTableMappingID \<Rightarrow> TableMapping list \<Rightarrow> diagnostic + TableMapping list" where
  "Do [] rid schemas = Inr schemas"
| "Do (RowOk rec # rows) rid schemas = Do rows rid (schemas @ [rec])"
| "Do (RowBad err # rows) rid schemas = Inl (ErrorParsingSchema (IdName rid) (IdDatabaseName rid) err)"
| "Do (IterFail err # rows) rid schemas = Inl (IterationError err)"

type_synonym 'k outcome = "(panic + diagnostic list) \<times> ResourceData \<times> 'k world"

definition resourceADXTableMappingRead ::
  "(string \<Rightarrow> string) \<Rightarrow> 'k Meta \<Rightarrow> ResourceData \<Rightarrow> 'k world \<Rightarrow> 'k outcome" where
  "resourceADXTableMappingRead unicode_lower meta d w =
     (case parseADXTableMappingID (Id d) of
        Inl err \<Rightarrow> (Inr [IDParseError err], d, w)
      | Inr rid \<Rightarrow>
         (case client_Mgmt meta w (IdDatabaseName rid)
                 (showStatement (IdTableName rid) (ToLower unicode_lower (IdKind rid)) (IdName rid)) of
            (Inl err, w') \<Rightarrow> (Inr [ErrorReadingTable (IdName rid) (IdDatabaseName rid) err], d, w')
          | (Inr resp, w') \<Rightarrow>
             (case Do resp rid [] of
                Inl e \<Rightarrow> (Inr [e], d, w')
              | Inr schemas \<Rightarrow>
                 (case schemas of
                    [] \<Rightarrow> (Inl IndexOutOfRange, d, w')
                  | s0 # rest \<Rightarrow>
                     (let d1 = d\<lparr>attr_table_name := Table s0\<rparr>;
                          d2 = d1\<lparr>attr_database_name := Database s0\<rparr>;
                          d3 = d2\<lparr>attr_kind := Kind s0\<rparr>
                      in case flattenTableMapping (Mapping s0) of
                           Inl p \<Rightarrow> (Inl p, d3, w')
                         | Inr m \<Rightarrow>
                            (Inr [], d3\<lparr>attr_mapping := m,
                                         attr_last_updated_on := Some (LastUpdatedOn s0)\<rparr>, w'))))))"

text \<open>Create/Update calls Read after it has set the ID and drops the diagnostics that Read
  returns; a panic in Read is not caught.\<close>

definition resourceADXTableMappingCreateUpdate ::
  "(string \<Rightarrow> string) \<Rightarrow> 'k Meta \<Rightarrow> ResourceData \<Rightarrow> 'k world \<Rightarrow> 'k outcome" where
  "resourceADXTableMappingCreateUpdate unicode_lower meta d w =
     (let name = attr_name d;
          tableName = attr_table_name d;
          databaseName = attr_database_name d;
          kind = attr_kind d
      in case expandTableMapping (attr_mapping d) of
           Inl p \<Rightarrow> (Inl p, d, w)
         | Inr mapping \<Rightarrow>
            (case client_Mgmt meta w databaseName
                    (createStatement tableName (ToLower unicode_lower kind) name mapping) of
               (Inl err, w') \<Rightarrow> (Inr [ErrorCreatingMapping name tableName databaseName err], d, w')
             | (Inr resp, w') \<Rightarrow>
                (let rid = formatID (Endpoint meta) databaseName tableName
                            (ToLower unicode_lower kind) name;
                     d' = d\<lparr>Id := rid\<rparr>
                 in case resourceADXTableMappingRead unicode_lower meta d' w' of
                      (Inl p, d'', w'') \<Rightarrow> (Inl p, d'', w'')
                    | (Inr ignored, d'', w'') \<Rightarrow> (Inr [], d'', w''))))"

definition resourceADXTableMappingDelete ::
  "(string \<Rightarrow> string) \<Rightarrow> 'k Meta \<Rightarrow> ResourceData \<Rightarrow> 'k world \<Rightarrow> 'k outcome" where
  "resourceADXTableMappingDelete unicode_lower meta d w =
     (case parseADXTableMappingID (Id d) of
        Inl err \<Rightarrow> (Inr [IDParseError err], d, w)
      | Inr rid \<Rightarrow>
         (case client_Mgmt meta w (IdDatabaseName rid)
                 (deleteStatement (IdTableName rid) (ToLower unicode_lower (IdKind rid)) (IdName rid)) of
            (Inl err, w') \<Rightarrow>
              (Inr [ErrorDeletingMapping (IdName rid) (IdTableName rid) (IdDatabaseName rid) err], d, w')
          | (Inr resp, w') \<Rightarrow> (Inr [], d\<lparr>Id := []\<rparr>, w')))"

section \<open>Schema validation\<close>

text \<open>
  Modelled from the spec: the validator \<^verbatim>\<open>stringIsNotEmpty\<close> named by the schema is
  not in the source file. The spec has an empty required string rejected before any remote
  call.
\<close>

definition stringIsNotEmpty :: "string \<Rightarrow> string \<Rightarrow> diagnostic list" where
  "stringIsNotEmpty key v = (if length v = 0 then [ValidationError key] else [])"

text \<open>
  Modelled from the spec: the validator \<^verbatim>\<open>stringInSlice\<close> named by the schema is not
  in the source file. The spec has the kind accepted when it is one of the listed values
  (\<^verbatim>\<open>Json\<close>), compared case-insensitively, and rejected otherwise.
\<close>

definition stringInSlice :: "string list \<Rightarrow> string \<Rightarrow> string \<Rightarrow> diagnostic list" where
  "stringInSlice valid key v =
     (if list_ex (\<lambda>s. map lower_ascii s = map lower_ascii v) valid then []
      else [ValidationError key])"

text \<open>The validators that the schema of the source attaches to \<^verbatim>\<open>name\<close>,
  \<^verbatim>\<open>database_name\<close>, \<^verbatim>\<open>table_name\<close> and \<^verbatim>\<open>kind\<close>.\<close>

definition validateSchema :: "ResourceData \<Rightarrow> diagnostic list" where
  "validateSchema d =
     stringIsNotEmpty ''name'' (attr_name d)
     @ stringIsNotEmpty ''database_name'' (attr_database_name d)
     @ stringIsNotEmpty ''table_name'' (attr_table_name d)
     @ stringInSlice [''Json''] ''kind'' (attr_kind d)"

text \<open>
  Modelled from the spec: the plugin SDK, which is outside the repository, validates the
  configuration with the schema's validators and calls the Create/Update function only
  for a configuration that passed (``rejected at validation time before any command is
  constructed'').
\<close>

definition applyCreateUpdate ::
  "(string \<Rightarrow> string) \<Rightarrow> 'k Meta \<Rightarrow> ResourceData \<Rightarrow> 'k world \<Rightarrow> 'k outcome" where
  "applyCreateUpdate unicode_lower meta d w =
     (case validateSchema d of
        [] \<Rightarrow> resourceADXTableMappingCreateUpdate unicode_lower meta d w
      | e # es \<Rightarrow> (Inr (e # es), d, w))"


section \<open>The properties, as the specification words them\<close>

text \<open>The string under a key of a block; empty when the key is absent or holds a value of
  another type.\<close>

definition string_at :: "block \<Rightarrow> string \<Rightarrow> string" where
  "string_at b k = (case b k of Some (TFString s) \<Rightarrow> s | _ \<Rightarrow> [])"

definition is_string_at :: "block \<Rightarrow> string \<Rightarrow> bool" where
  "is_string_at b k = (case b k of Some (TFString s) \<Rightarrow> True | _ \<Rightarrow> False)"

text \<open>An entry as the schema types it: column, path and datatype are strings.\<close>

definition typed_entry :: "block \<Rightarrow> bool" where
  "typed_entry b =
     (is_string_at b ''column'' \<and> is_string_at b ''path'' \<and> is_string_at b ''datatype'')"

text \<open>
  The mapping JSON of one entry as the specification gives it: the keys \<^verbatim>\<open>column\<close>,
  \<^verbatim>\<open>path\<close> and \<^verbatim>\<open>datatype\<close>, quoted and in that order, and the key
  \<^verbatim>\<open>transform\<close> only when its value is a non-empty string.
\<close>

definition entry_text :: "block \<Rightarrow> string" where
  \<open>entry_text b =
     ''{"column":"'' @ string_at b ''column'' @ ''","path":"'' @ string_at b ''path''
       @ ''","datatype":"'' @ string_at b ''datatype'' @ ''"''
       @ (if string_at b ''transform'' = [] then []
          else '',"transform":"'' @ string_at b ''transform'' @ ''"'')
       @ ''}''\<close>

text \<open>A field value that the hand-built JSON carries unchanged: no quote, no backslash,
  no control byte, and well-formed UTF-8.\<close>

definition plain :: "string \<Rightarrow> bool" where
  "plain s = (list_all (\<lambda>c. c \<noteq> quote \<and> c \<noteq> backslash \<and> \<not> byte c < 0x20) s \<and> Valid s)"

definition plain_entry :: "block \<Rightarrow> bool" where
  "plain_entry b =
     (typed_entry b \<and> plain (string_at b ''column'') \<and> plain (string_at b ''path'')
        \<and> plain (string_at b ''datatype'') \<and> plain (string_at b ''transform''))"

text \<open>The entry as Read sets it: the four keys, transform the empty string when the entry
  had none.\<close>

definition read_back :: "block \<Rightarrow> block" where
  "read_back b =
     Map.empty(''column'' \<mapsto> TFString (string_at b ''column''),
               ''path'' \<mapsto> TFString (string_at b ''path''),
               ''datatype'' \<mapsto> TFString (string_at b ''datatype''),
               ''transform'' \<mapsto> TFString (string_at b ''transform''))"

text \<open>The entries of the specification's round-trip properties: no quote and no
  backslash in a field, with nothing said of control bytes and UTF-8.\<close>

definition quote_free :: "string \<Rightarrow> bool" where
  "quote_free s = list_all (\<lambda>c. c \<noteq> quote \<and> c \<noteq> backslash) s"

definition quote_free_entry :: "block \<Rightarrow> bool" where
  "quote_free_entry b =
     (typed_entry b \<and> quote_free (string_at b ''column'') \<and> quote_free (string_at b ''path'')
        \<and> quote_free (string_at b ''datatype'') \<and> quote_free (string_at b ''transform''))"

text \<open>The two compositions the round-trip claims speak of: \<^verbatim>\<open>flatten(expand(entries))\<close>,
  and the flattening of the expansion between the brackets that the Create/Update template
  puts around it.\<close>

definition flatten_of_expand :: "item list \<Rightarrow> panic + item list" where
  "flatten_of_expand entries =
     (case expandTableMapping entries of Inl p \<Rightarrow> Inl p | Inr s \<Rightarrow> flattenTableMapping s)"

definition flatten_of_bracketed :: "item list \<Rightarrow> panic + item list" where
  "flatten_of_bracketed entries =
     (case expandTableMapping entries of
        Inl p \<Rightarrow> Inl p
      | Inr s \<Rightarrow> flattenTableMapping (''['' @ s @ '']''))"

text \<open>The tokens, the value and the struct that the decoder goes through on the text of an
  entry; they are what the proofs of the round trip follow.\<close>

definition entry_tokens :: "block \<Rightarrow> token list" where
  "entry_tokens b =
     [TLBrace, TString ''column'', TColon, TString (string_at b ''column''), TComma,
      TString ''path'', TColon, TString (string_at b ''path''), TComma,
      TString ''datatype'', TColon, TString (string_at b ''datatype'')]
     @ (if string_at b ''transform'' = [] then []
        else [TComma, TString ''transform'', TColon, TString (string_at b ''transform'')])
     @ [TRBrace]"

fun entries_tokens :: "block list \<Rightarrow> token list" where
  "entries_tokens [] = []"
| "entries_tokens [b] = entry_tokens b"
| "entries_tokens (b # b' # bs) = entry_tokens b @ TComma # entries_tokens (b' # bs)"

definition entry_json :: "block \<Rightarrow> json" where
  "entry_json b =
     JObject ([(''column'', JString (string_at b ''column'')),
               (''path'', JString (string_at b ''path'')),
               (''datatype'', JString (string_at b ''datatype''))]
              @ (if string_at b ''transform'' = [] then []
                 else [(''transform'', JString (string_at b ''transform''))]))"

definition entry_mapping :: "block \<Rightarrow> Mapping" where
  "entry_mapping b =
     \<lparr>Column = string_at b ''column'', Path = string_at b ''path'',
      DataType = string_at b ''datatype'', Transform = string_at b ''transform''\<rparr>"

section \<open>Invariants of the decoder\<close>

text \<open>
  The string literals that the scanner accepts: the bytes between the quotes are plain
  bytes, two-byte escapes and \<^verbatim>\<open>\uXXXX\<close> escapes with four hexadecimal digits. The
  predicates after it say that every literal held by a token, a scanner state, a value, a
  stack frame or a parser state is of that form.
\<close>

function body_ok :: "string \<Rightarrow> bool" where
  "body_ok [] = True"
| "body_ok (c # cs) =
     (if c = backslash then
        (case cs of
           [] \<Rightarrow> False
         | e # rest \<Rightarrow>
             if e = CHR ''u'' then 4 \<le> length rest \<and> list_all isHex (take 4 rest) \<and> body_ok (drop 4 rest)
             else isEscape e \<and> body_ok rest)
      else c \<noteq> quote \<and> \<not> byte c < 0x20 \<and> body_ok cs)"
  by pat_completeness auto
termination
  by (relation "measure length") auto

fun tok_ok :: "token \<Rightarrow> bool" where
  "tok_ok (TString raw) = body_ok raw"
| "tok_ok t = True"

fun st_ok :: "lexstate \<Rightarrow> bool" where
  "st_ok (InString raw) = body_ok raw"
| "st_ok (InStringEsc raw) = (\<exists>p. raw = p @ [backslash] \<and> body_ok p)"
| "st_ok (InStringEscU k raw) =
     (\<exists>p hs. raw = p @ backslash # CHR ''u'' # hs \<and> length hs = k \<and> k \<le> 3
             \<and> list_all isHex hs \<and> body_ok p)"
| "st_ok (Lit t rest) = tok_ok t"
| "st_ok s = True"

fun json_ok :: "json \<Rightarrow> bool" where
  "json_ok (JString raw) = body_ok raw"
| "json_ok (JArray xs) = list_all json_ok xs"
| "json_ok (JObject ms) = list_all (\<lambda>m. body_ok (fst m) \<and> json_ok (snd m)) ms"
| "json_ok v = True"

fun frame_ok :: "frame \<Rightarrow> bool" where
  "frame_ok (InArray xs) = list_all json_ok xs"
| "frame_ok (InObject ms) = list_all (\<lambda>m. body_ok (fst m) \<and> json_ok (snd m)) ms"
| "frame_ok (InMember ms k) = (list_all (\<lambda>m. body_ok (fst m) \<and> json_ok (snd m)) ms \<and> body_ok k)"

fun step_ok :: "step \<Rightarrow> bool" where
  "step_ok (EndTop v) = json_ok v"
| "step_ok s = True"

section \<open>The mapping codec: expansion\<close>

lemma expand_entry_typed:
  "typed_entry b \<Longrightarrow> expand_entry (Block b) = Inr (entry_text b)"
  by (auto simp: typed_entry_def is_string_at_def string_at_def entry_text_def assert_string_def
           split: option.splits tfvalue.splits)

lemma expand_loop_typed:
  "list_all typed_entry bs \<Longrightarrow> expand_loop (map Block bs) acc = Inr (acc @ map entry_text bs)"
  by (induction bs arbitrary: acc) (simp_all add: expand_entry_typed del: expand_entry.simps)

lemma expandTableMapping_typed:
  "list_all typed_entry bs \<Longrightarrow>
     expandTableMapping (map Block bs) = Inr (Join (map entry_text bs) '','')"
  by (simp add: expandTableMapping_def expand_loop_typed)



text \<open>
  C5: \<^verbatim>\<open>expandTableMapping\<close> of the empty list is the empty string, and
  \<^verbatim>\<open>flattenTableMapping\<close> of the empty string is the empty list.
\<close>

theorem C5_empty_list_and_empty_string:
  "expandTableMapping [] = Inr [] \<and> flattenTableMapping [] = Inr []"
  by (simp add: expandTableMapping_def flattenTableMapping_def)

section \<open>Read, Create/Update and Delete: the client and the ID\<close>

text \<open>
  C2: when the ID parses and the \<^verbatim>\<open>.show\<close> command succeeds with no row, Read reaches
  \<^verbatim>\<open>schemas[0]\<close> on an empty slice: the index is out of range and Read panics.
\<close>

theorem C2_read_zero_rows_index_fault:
  assumes "parseADXTableMappingID (Id d) = Inr rid"
    and "Mgmt meta (server w) (IdDatabaseName rid)
           (showStatement (IdTableName rid) (ToLower ul (IdKind rid)) (IdName rid)) = (Inr [], k')"
  shows "fst (resourceADXTableMappingRead ul meta d w) = Inl IndexOutOfRange"
  using assms by (simp add: resourceADXTableMappingRead_def client_Mgmt_def)

theorem C2_read_zero_rows_index_fault_witness:
  "fst (resourceADXTableMappingRead (\<lambda>s. s)
          \<lparr>Endpoint = ''https://c'', Mgmt = (\<lambda>k db stmt. (Inr [], k))\<rparr>
          \<lparr>Id = ''https://c|db|t|json|m'', attr_name = ''m'', attr_database_name = ''db'',
            attr_table_name = ''t'', attr_kind = ''Json'', attr_mapping = [],
            attr_last_updated_on = None\<rparr>
          \<lparr>server = (0::nat), sent = []\<rparr>) = Inl IndexOutOfRange"
  by (rule C2_read_zero_rows_index_fault
        [where rid = "\<lparr>IdEndpoint = ''https://c'', IdDatabaseName = ''db'', IdTableName = ''t'',
                        IdKind = ''json'', IdName = ''m''\<rparr>" and k' = 0])
     (simp_all add: parseADXTableMappingID_def pipe_def)

lemma Read_keeps_Id:
  "Id (fst (snd (resourceADXTableMappingRead ul meta d w))) = Id d"
  by (auto simp: resourceADXTableMappingRead_def Let_def split: sum.splits prod.splits list.splits)

lemma Read_sent:
  "sent (snd (snd (resourceADXTableMappingRead ul meta d w))) =
     sent w @ (case parseADXTableMappingID (Id d) of
                 Inl e \<Rightarrow> []
               | Inr rid \<Rightarrow>
                   [(IdDatabaseName rid,
                     showStatement (IdTableName rid) (ToLower ul (IdKind rid)) (IdName rid))])"
  by (auto simp: resourceADXTableMappingRead_def client_Mgmt_def Let_def
           split: sum.splits prod.splits list.splits)



text \<open>
  C6: the statements that the three operations submit to the management client, for all
  attribute values. Create/Update submits the \<^verbatim>\<open>.create-or-alter\<close> template with the
  lowered kind and the output of \<^verbatim>\<open>expandTableMapping\<close> between the brackets (and,
  when that command succeeds and the new ID parses, the \<^verbatim>\<open>.show\<close> statement of the
  Read it calls); Read submits the \<^verbatim>\<open>.show\<close> template and Delete the
  \<^verbatim>\<open>.drop\<close> template, with the fields of the parsed ID and the kind lowered. Nothing
  else is submitted.
\<close>

theorem C6_statements_submitted:
  "sent (snd (snd (resourceADXTableMappingCreateUpdate ul meta d w))) =
     sent w @
     (case expandTableMapping (attr_mapping d) of
        Inl p \<Rightarrow> []
      | Inr m \<Rightarrow>
          (attr_database_name d,
           ''.create-or-alter table '' @ attr_table_name d @ '' ingestion ''
             @ ToLower ul (attr_kind d) @ '' mapping '' @ [apostrophe] @ attr_name d @ [apostrophe]
             @ '' '' @ [apostrophe] @ ''['' @ m @ '']'' @ [apostrophe])
          # (case fst (Mgmt meta (server w) (attr_database_name d)
                        (createStatement (attr_table_name d) (ToLower ul (attr_kind d))
                           (attr_name d) m)) of
               Inl err \<Rightarrow> []
             | Inr resp \<Rightarrow>
                 (case parseADXTableMappingID
                         (formatID (Endpoint meta) (attr_database_name d) (attr_table_name d)
                            (ToLower ul (attr_kind d)) (attr_name d)) of
                    Inl e \<Rightarrow> []
                  | Inr rid \<Rightarrow>
                      [(IdDatabaseName rid,
                        showStatement (IdTableName rid) (ToLower ul (IdKind rid)) (IdName rid))])))
   \<and> sent (snd (snd (resourceADXTableMappingRead ul meta d w))) =
     sent w @
     (case parseADXTableMappingID (Id d) of
        Inl e \<Rightarrow> []
      | Inr rid \<Rightarrow>
          [(IdDatabaseName rid,
            ''.show table '' @ IdTableName rid @ '' ingestion '' @ ToLower ul (IdKind rid)
              @ '' mapping '' @ [apostrophe] @ IdName rid @ [apostrophe])])
   \<and> sent (snd (snd (resourceADXTableMappingDelete ul meta d w))) =
     sent w @
     (case parseADXTableMappingID (Id d) of
        Inl e \<Rightarrow> []
      | Inr rid \<Rightarrow>
          [(IdDatabaseName rid,
            ''.drop table '' @ IdTableName rid @ '' ingestion '' @ ToLower ul (IdKind rid)
              @ '' mapping '' @ [apostrophe] @ IdName rid @ [apostrophe])])"
proof (intro conjI)
  show "sent (snd (snd (resourceADXTableMappingRead ul meta d w))) =
     sent w @
     (case parseADXTableMappingID (Id d) of
        Inl e \<Rightarrow> []
      | Inr rid \<Rightarrow>
          [(IdDatabaseName rid,
            ''.show table '' @ IdTableName rid @ '' ingestion '' @ ToLower ul (IdKind rid)
              @ '' mapping '' @ [apostrophe] @ IdName rid @ [apostrophe])])"
    by (simp add: Read_sent showStatement_def split: sum.splits)
  show "sent (snd (snd (resourceADXTableMappingDelete ul meta d w))) =
     sent w @
     (case parseADXTableMappingID (Id d) of
        Inl e \<Rightarrow> []
      | Inr rid \<Rightarrow>
          [(IdDatabaseName rid,
            ''.drop table '' @ IdTableName rid @ '' ingestion '' @ ToLower ul (IdKind rid)
              @ '' mapping '' @ [apostrophe] @ IdName rid @ [apostrophe])])"
    by (auto simp: resourceADXTableMappingDelete_def client_Mgmt_def deleteStatement_def
             split: sum.splits prod.splits)
next
  let ?stmt = "createStatement (attr_table_name d) (ToLower ul (attr_kind d)) (attr_name d)"
  let ?id = "formatID (Endpoint meta) (attr_database_name d) (attr_table_name d)
               (ToLower ul (attr_kind d)) (attr_name d)"
  have read: "\<And>m r k'. Mgmt meta (server w) (attr_database_name d) (?stmt m) = (Inr r, k') \<Longrightarrow>
     expandTableMapping (attr_mapping d) = Inr m \<Longrightarrow>
     snd (snd (resourceADXTableMappingCreateUpdate ul meta d w)) =
     snd (snd (resourceADXTableMappingRead ul meta (d\<lparr>Id := ?id\<rparr>)
        (w\<lparr>server := k', sent := sent w @ [(attr_database_name d, ?stmt m)]\<rparr>)))"
    by (simp add: resourceADXTableMappingCreateUpdate_def client_Mgmt_def Let_def
             split: sum.splits prod.splits)
  show "sent (snd (snd (resourceADXTableMappingCreateUpdate ul meta d w))) =
     sent w @
     (case expandTableMapping (attr_mapping d) of
        Inl p \<Rightarrow> []
      | Inr m \<Rightarrow>
          (attr_database_name d,
           ''.create-or-alter table '' @ attr_table_name d @ '' ingestion ''
             @ ToLower ul (attr_kind d) @ '' mapping '' @ [apostrophe] @ attr_name d @ [apostrophe]
             @ '' '' @ [apostrophe] @ ''['' @ m @ '']'' @ [apostrophe])
          # (case fst (Mgmt meta (server w) (attr_database_name d) (?stmt m)) of
               Inl err \<Rightarrow> []
             | Inr resp \<Rightarrow>
                 (case parseADXTableMappingID ?id of
                    Inl e \<Rightarrow> []
                  | Inr rid \<Rightarrow>
                      [(IdDatabaseName rid,
                        showStatement (IdTableName rid) (ToLower ul (IdKind rid)) (IdName rid))])))"
  proof (cases "expandTableMapping (attr_mapping d)")
    case (Inl p)
    then show ?thesis by (simp add: resourceADXTableMappingCreateUpdate_def Let_def)
  next
    case (Inr m)
    obtain r k' where mg: "Mgmt meta (server w) (attr_database_name d) (?stmt m) = (r, k')"
      by (cases "Mgmt meta (server w) (attr_database_name d) (?stmt m)")
    show ?thesis
    proof (cases r)
      case (Inl err)
      with Inr mg show ?thesis
        by (simp add: resourceADXTableMappingCreateUpdate_def client_Mgmt_def Let_def
              createStatement_def)
    next
      case r: (Inr resp)
      from read[OF mg[unfolded r] Inr] Inr mg r show ?thesis
        by (simp add: Read_sent createStatement_def split: sum.splits)
    qed
  qed
qed

lemma lower_Json: "map lower_ascii ''Json'' = ''json''"
  by code_simp

lemma lower_JSON: "map lower_ascii ''JSON'' = ''json''"
  by code_simp

lemma lower_json: "map lower_ascii ''json'' = ''json''"
  by code_simp

lemma ToLower_Json: "ToLower ul ''Json'' = ''json''"
proof -
  have "isASCII ''Json''" by code_simp
  then show ?thesis unfolding ToLower_def lower_Json by simp
qed

lemma ToLower_json: "ToLower ul ''json'' = ''json''"
proof -
  have "isASCII ''json''" by code_simp
  then show ?thesis unfolding ToLower_def lower_json by simp
qed

theorem C6_statements_submitted_witness:
  \<open>sent (snd (snd (resourceADXTableMappingCreateUpdate (\<lambda>s. s)
          \<lparr>Endpoint = ''https://c'', Mgmt = (\<lambda>k db stmt. (Inr [], k))\<rparr>
          \<lparr>Id = [], attr_name = ''m'', attr_database_name = ''db'',
            attr_table_name = ''t'', attr_kind = ''Json'',
            attr_mapping = [Block [''column'' \<mapsto> TFString ''a'', ''path'' \<mapsto> TFString ''$.a'',
                                   ''datatype'' \<mapsto> TFString ''string'']],
            attr_last_updated_on = None\<rparr>
          \<lparr>server = (0::nat), sent = []\<rparr>))) =
     [(''db'', ''.create-or-alter table t ingestion json mapping '' @ [apostrophe] @ ''m''
               @ [apostrophe] @ '' '' @ [apostrophe]
               @ ''[{"column":"a","path":"$.a","datatype":"string"}]'' @ [apostrophe]),
      (''db'', ''.show table t ingestion json mapping '' @ [apostrophe] @ ''m'' @ [apostrophe])]\<close>
  using C6_statements_submitted [of "\<lambda>s. s"
          "\<lparr>Endpoint = ''https://c'', Mgmt = (\<lambda>k db stmt. (Inr [], k))\<rparr>"
          "\<lparr>Id = [], attr_name = ''m'', attr_database_name = ''db'',
            attr_table_name = ''t'', attr_kind = ''Json'',
            attr_mapping = [Block [''column'' \<mapsto> TFString ''a'', ''path'' \<mapsto> TFString ''$.a'',
                                   ''datatype'' \<mapsto> TFString ''string'']],
            attr_last_updated_on = None\<rparr>"
          "\<lparr>server = (0::nat), sent = []\<rparr>"]
  by (simp add: expandTableMapping_def assert_string_def parseADXTableMappingID_def formatID_def
        pipe_def showStatement_def ToLower_Json ToLower_json)

lemma Split_no_sep: "sep \<notin> set a \<Longrightarrow> Split a sep = [a]"
  by (induction a) auto

lemma Split_append_sep:
  "sep \<notin> set a \<Longrightarrow> Split (a @ sep # rest) sep = a # Split rest sep"
  by (induction a) (auto split: list.splits)

lemma parse_formatID:
  assumes "pipe \<notin> set e" "pipe \<notin> set db" "pipe \<notin> set t" "pipe \<notin> set k" "pipe \<notin> set n"
  shows "parseADXTableMappingID (formatID e db t k n) =
           Inr \<lparr>IdEndpoint = e, IdDatabaseName = db, IdTableName = t, IdKind = k, IdName = n\<rparr>"
  using assms
  by (simp add: parseADXTableMappingID_def formatID_def Split_append_sep Split_no_sep)

text \<open>
  C3 (amended): the ID that a successful Create/Update sets is the endpoint, the database,
  the table, the lowered kind and the name joined by the pipe character; parsing a
  formatted ID gives back the five fields when none of them contains the pipe character;
  an ID whose number of pipe-delimited fields is not five is a parse error, on which Read
  and Delete return one diagnostic and do nothing else. The
  counterexample is a name with a pipe in it: the formatted ID has six fields and does not
  parse back.
\<close>

theorem C3_resource_id_round_trip:
  "(expandTableMapping (attr_mapping d) = Inr m \<and>
      Mgmt meta (server w) (attr_database_name d)
        (createStatement (attr_table_name d) (ToLower ul (attr_kind d)) (attr_name d) m) = (Inr resp, k')
      \<longrightarrow> Id (fst (snd (resourceADXTableMappingCreateUpdate ul meta d w))) =
            Endpoint meta @ ''|'' @ attr_database_name d @ ''|'' @ attr_table_name d @ ''|''
              @ ToLower ul (attr_kind d) @ ''|'' @ attr_name d)
   \<and> (pipe \<notin> set e \<and> pipe \<notin> set db \<and> pipe \<notin> set t \<and> pipe \<notin> set k \<and> pipe \<notin> set n
      \<longrightarrow> parseADXTableMappingID (formatID e db t k n) =
            Inr \<lparr>IdEndpoint = e, IdDatabaseName = db, IdTableName = t, IdKind = k, IdName = n\<rparr>)
   \<and> (length (Split (Id d0) pipe) \<noteq> 5
      \<longrightarrow> parseADXTableMappingID (Id d0) = Inl (Id d0)
          \<and> resourceADXTableMappingRead ul meta d0 w = (Inr [IDParseError (Id d0)], d0, w)
          \<and> resourceADXTableMappingDelete ul meta d0 w = (Inr [IDParseError (Id d0)], d0, w))"
proof (intro conjI impI)
  assume a: "expandTableMapping (attr_mapping d) = Inr m \<and>
    Mgmt meta (server w) (attr_database_name d)
      (createStatement (attr_table_name d) (ToLower ul (attr_kind d)) (attr_name d) m) = (Inr resp, k')"
  let ?d' = "d\<lparr>Id := formatID (Endpoint meta) (attr_database_name d) (attr_table_name d)
              (ToLower ul (attr_kind d)) (attr_name d)\<rparr>"
  let ?w' = "w\<lparr>server := k', sent := sent w @ [(attr_database_name d,
      createStatement (attr_table_name d) (ToLower ul (attr_kind d)) (attr_name d) m)]\<rparr>"
  have "fst (snd (resourceADXTableMappingCreateUpdate ul meta d w)) =
        fst (snd (resourceADXTableMappingRead ul meta ?d' ?w'))"
    using a by (simp add: resourceADXTableMappingCreateUpdate_def client_Mgmt_def Let_def
                     split: sum.splits prod.splits)
  then show "Id (fst (snd (resourceADXTableMappingCreateUpdate ul meta d w))) =
            Endpoint meta @ ''|'' @ attr_database_name d @ ''|'' @ attr_table_name d @ ''|''
              @ ToLower ul (attr_kind d) @ ''|'' @ attr_name d"
    by (simp add: Read_keeps_Id formatID_def pipe_def)
next
  assume "pipe \<notin> set e \<and> pipe \<notin> set db \<and> pipe \<notin> set t \<and> pipe \<notin> set k \<and> pipe \<notin> set n"
  then show "parseADXTableMappingID (formatID e db t k n) =
            Inr \<lparr>IdEndpoint = e, IdDatabaseName = db, IdTableName = t, IdKind = k, IdName = n\<rparr>"
    by (simp add: parse_formatID)
next
  assume "length (Split (Id d0) pipe) \<noteq> 5"
  then show "parseADXTableMappingID (Id d0) = Inl (Id d0)"
    by (simp add: parseADXTableMappingID_def)
next
  assume "length (Split (Id d0) pipe) \<noteq> 5"
  then show "resourceADXTableMappingRead ul meta d0 w = (Inr [IDParseError (Id d0)], d0, w)"
    by (simp add: resourceADXTableMappingRead_def parseADXTableMappingID_def)
next
  assume "length (Split (Id d0) pipe) \<noteq> 5"
  then show "resourceADXTableMappingDelete ul meta d0 w = (Inr [IDParseError (Id d0)], d0, w)"
    by (simp add: resourceADXTableMappingDelete_def parseADXTableMappingID_def)
qed

theorem C3_resource_id_round_trip_witness:
  "Id (fst (snd (resourceADXTableMappingCreateUpdate (\<lambda>s. s)
          \<lparr>Endpoint = ''https://c'', Mgmt = (\<lambda>k db stmt. (Inr [], k))\<rparr>
          \<lparr>Id = [], attr_name = ''m'', attr_database_name = ''db'',
            attr_table_name = ''t'', attr_kind = ''Json'', attr_mapping = [],
            attr_last_updated_on = None\<rparr>
          \<lparr>server = (0::nat), sent = []\<rparr>))) = ''https://c|db|t|json|m''
   \<and> parseADXTableMappingID (formatID ''https://c'' ''db'' ''t'' ''json'' ''m'') =
       Inr \<lparr>IdEndpoint = ''https://c'', IdDatabaseName = ''db'', IdTableName = ''t'',
            IdKind = ''json'', IdName = ''m''\<rparr>
   \<and> fst (resourceADXTableMappingRead (\<lambda>s. s)
          \<lparr>Endpoint = ''https://c'', Mgmt = (\<lambda>k db stmt. (Inr [], k))\<rparr>
          \<lparr>Id = ''db|t|json|m'', attr_name = ''m'', attr_database_name = ''db'',
            attr_table_name = ''t'', attr_kind = ''Json'', attr_mapping = [],
            attr_last_updated_on = None\<rparr>
          \<lparr>server = (0::nat), sent = []\<rparr>) = Inr [IDParseError ''db|t|json|m'']"
  using C3_resource_id_round_trip [where
          d = "\<lparr>Id = [], attr_name = ''m'', attr_database_name = ''db'',
            attr_table_name = ''t'', attr_kind = ''Json'', attr_mapping = [],
            attr_last_updated_on = None\<rparr>" and m = "[]"
          and meta = "\<lparr>Endpoint = ''https://c'', Mgmt = (\<lambda>k db stmt. (Inr [], k))\<rparr>"
          and w = "\<lparr>server = (0::nat), sent = []\<rparr>" and ul = "\<lambda>s. s" and resp = "[]"
          and k' = 0 and e = "''https://c''" and db = "''db''" and t = "''t''" and k = "''json''"
          and n = "''m''"
          and ?d0.0 = "\<lparr>Id = ''db|t|json|m'', attr_name = ''m'', attr_database_name = ''db'',
            attr_table_name = ''t'', attr_kind = ''Json'', attr_mapping = [],
            attr_last_updated_on = None\<rparr>"]
  by (simp add: expandTableMapping_def pipe_def ToLower_Json)

theorem C3_pipe_in_name_counterexample:
  "parseADXTableMappingID (formatID ''https://c'' ''db'' ''t'' ''json'' ''a|b'') \<noteq>
     Inr \<lparr>IdEndpoint = ''https://c'', IdDatabaseName = ''db'', IdTableName = ''t'',
          IdKind = ''json'', IdName = ''a|b''\<rparr>"
  by (simp add: parseADXTableMappingID_def formatID_def pipe_def)

text \<open>
  C9: a kind that is not \<^verbatim>\<open>Json\<close> under case-insensitive comparison fails the
  validation of the schema, and Create/Update is then not entered: the diagnostics of the
  validation are returned, the resource data and the world (the statements submitted
  among it) are unchanged. Every case variant of \<^verbatim>\<open>Json\<close> passes the validator.
\<close>

theorem C9_kind_validated_before_commands:
  "(map lower_ascii (attr_kind d) \<noteq> ''json''
      \<longrightarrow> applyCreateUpdate ul meta d w = (Inr (validateSchema d), d, w)
          \<and> ValidationError ''kind'' \<in> set (validateSchema d))
   \<and> (map lower_ascii k = ''json'' \<longrightarrow> stringInSlice [''Json''] ''kind'' k = [])
   \<and> stringInSlice [''Json''] ''kind'' ''json'' = []
   \<and> stringInSlice [''Json''] ''kind'' ''JSON'' = []"
  by (auto simp: applyCreateUpdate_def validateSchema_def stringInSlice_def stringIsNotEmpty_def
        lower_Json lower_JSON lower_json simp del: list.map split: list.splits)

lemma lower_Csv: "map lower_ascii ''Csv'' = ''csv''"
  by code_simp

lemma lower_jSoN: "map lower_ascii ''jSoN'' = ''json''"
  by code_simp

theorem C9_kind_validated_before_commands_witness:
  "applyCreateUpdate (\<lambda>s. s)
          \<lparr>Endpoint = ''https://c'', Mgmt = (\<lambda>k db stmt. (Inr [], k))\<rparr>
          \<lparr>Id = [], attr_name = ''m'', attr_database_name = ''db'',
            attr_table_name = ''t'', attr_kind = ''Csv'', attr_mapping = [],
            attr_last_updated_on = None\<rparr>
          \<lparr>server = (0::nat), sent = []\<rparr>
     = (Inr [ValidationError ''kind''],
          \<lparr>Id = [], attr_name = ''m'', attr_database_name = ''db'',
            attr_table_name = ''t'', attr_kind = ''Csv'', attr_mapping = [],
            attr_last_updated_on = None\<rparr>,
          \<lparr>server = (0::nat), sent = []\<rparr>)
   \<and> stringInSlice [''Json''] ''kind'' ''jSoN'' = []"
  using C9_kind_validated_before_commands [of
          "\<lparr>Id = [], attr_name = ''m'', attr_database_name = ''db'',
            attr_table_name = ''t'', attr_kind = ''Csv'', attr_mapping = [],
            attr_last_updated_on = None\<rparr>" "\<lambda>s. s"
          "\<lparr>Endpoint = ''https://c'', Mgmt = (\<lambda>k db stmt. (Inr [], k))\<rparr>"
          "\<lparr>server = (0::nat), sent = []\<rparr>" "''jSoN''"]
  by (simp add: validateSchema_def stringInSlice_def stringIsNotEmpty_def lower_Json lower_Csv
        lower_jSoN del: list.map)

section \<open>The mapping codec: flattening the expansion\<close>

subsection \<open>Plain strings pass the scanner and the unquoting unchanged\<close>

lemma DecodeRune_width:
  "DecodeRune (c # cs) = (r, w) \<Longrightarrow> 0 < w \<and> w \<le> length (c # cs)"
  by (auto simp: Let_def Suc_le_eq split: if_splits)

lemma plain_prefix_full:
  assumes "list_all (\<lambda>c. c \<noteq> quote \<and> c \<noteq> backslash \<and> \<not> byte c < 0x20) s" and "Valid s"
  shows "plain_prefix s = length s"
  using assms
proof (induction s rule: plain_prefix.induct)
  case 1
  show ?case by simp
next
  case (2 c cs)
  obtain rr w where d: "DecodeRune (c # cs) = (rr, w)"
    by (cases "DecodeRune (c # cs)")
  from "2.prems"(2) d have nv: "\<not> (rr = RuneError \<and> w = 1)" and v: "Valid (drop w (c # cs))"
    by (auto simp del: DecodeRune.simps split: if_splits)
  from "2.prems"(1) have c: "\<not> (c = backslash \<or> c = quote \<or> byte c < 0x20)"
    by simp
  show ?case
  proof (cases "byte c < 0x80")
    case True
    then have "w = 1" using d by simp
    with v have "Valid cs" by simp
    with "2.IH"(1)[OF c True] "2.prems"(1) c True show ?thesis
      by (simp del: DecodeRune.simps)
  next
    case False
    from DecodeRune_width[OF d] have w: "0 < w" "w \<le> length (c # cs)" by simp_all
    have "list_all (\<lambda>c. c \<noteq> quote \<and> c \<noteq> backslash \<and> \<not> byte c < 0x20) (drop w (c # cs))"
      using "2.prems"(1) unfolding list_all_iff by (meson in_set_dropD)
    from "2.IH"(2)[OF c False d[symmetric] nv this v]
    have "plain_prefix (drop w (c # cs)) = length (drop w (c # cs))" .
    with c False d nv w show ?thesis
      by (simp del: DecodeRune.simps drop_Suc_Cons)
  qed
qed

lemma unquote_plain: "plain s \<Longrightarrow> unquote s = Some s"
  by (simp add: plain_def unquote_def plain_prefix_full)

lemma lex_string_body:
  "list_all (\<lambda>c. c \<noteq> quote \<and> c \<noteq> backslash \<and> \<not> byte c < 0x20) s \<Longrightarrow>
     lexer (InString raw) (s @ CHR 0x22 # rest) = emit [TString (raw @ s)] (lexer Idle rest)"
  by (induction s arbitrary: raw) (simp_all add: quote_def)

lemma emit_emit: "emit ts (emit us r) = emit (ts @ us) r"
  by (cases r) (simp_all add: emit_def)

lemma emit_Nil: "emit [] r = r"
  by (cases r) (simp_all add: emit_def)

lemma emit_Some: "emit ts (Some us) = Some (ts @ us)"
  by (simp add: emit_def)

subsection \<open>The scanner on the expansion\<close>

lemma plain_chars:
  "plain s \<Longrightarrow> list_all (\<lambda>c. c \<noteq> quote \<and> c \<noteq> backslash \<and> \<not> byte c < 0x20) s"
  by (simp add: plain_def)

lemma lex_entry:
  assumes "plain_entry b"
  shows "lexer Idle (entry_text b @ rest) = emit (entry_tokens b) (lexer Idle rest)"
proof -
  note ls = lex_string_body[OF plain_chars, where raw = "[]", simplified]
  from assms have p: "plain (string_at b ''column'')" "plain (string_at b ''path'')"
    "plain (string_at b ''datatype'')" "plain (string_at b ''transform'')"
    by (simp_all add: plain_entry_def)
  show ?thesis
    by (simp add: entry_text_def entry_tokens_def isSpace_def quote_def backslash_def byte_def
          ls[OF p(1)] ls[OF p(2)] ls[OF p(3)] ls[OF p(4)] emit_emit)
qed

lemma lex_entries:
  "list_all plain_entry bs \<Longrightarrow>
     lexer Idle (Join (map entry_text bs) '','' @ rest) = emit (entries_tokens bs) (lexer Idle rest)"
proof (induction bs rule: entries_tokens.induct)
  case 1
  show ?case by (simp add: emit_Nil)
next
  case (2 b)
  then show ?case by (simp add: lex_entry)
next
  case (3 b b' bs)
  from "3.prems" have b: "plain_entry b" and rest: "list_all plain_entry (b' # bs)"
    by simp_all
  have "lexer Idle (Join (map entry_text (b # b' # bs)) '','' @ rest) =
        lexer Idle (entry_text b @ (CHR '','' # Join (map entry_text (b' # bs)) '','' @ rest))"
    by simp
  also have "\<dots> = emit (entry_tokens b)
                     (lexer Idle (CHR '','' # Join (map entry_text (b' # bs)) '','' @ rest))"
    by (rule lex_entry[OF b])
  also have "lexer Idle (CHR '','' # Join (map entry_text (b' # bs)) '','' @ rest) =
             emit [TComma] (lexer Idle (Join (map entry_text (b' # bs)) '','' @ rest))"
    by (simp add: isSpace_def)
  also note "3.IH"[OF rest]
  finally show ?case by (simp add: emit_emit)
qed

lemma lex_bracketed:
  assumes "list_all plain_entry bs"
  shows "lexer Idle (''['' @ Join (map entry_text bs) '','' @ '']'') =
           Some (TLBracket # entries_tokens bs @ [TRBracket])"
proof -
  have "lexer Idle (''['' @ Join (map entry_text bs) '','' @ '']'') =
        emit [TLBracket] (lexer Idle (Join (map entry_text bs) '','' @ '']''))"
    by (simp add: isSpace_def)
  also have "\<dots> = emit [TLBracket] (emit (entries_tokens bs) (lexer Idle '']''))"
    by (simp only: lex_entries[OF assms])
  also have "lexer Idle '']'' = Some [TRBracket]"
    by (simp add: isSpace_def emit_def)
  finally show ?thesis by (simp add: emit_def)
qed

lemma parse_entry:
  assumes "s = BeginValue \<or> s = BeginValueOrEmpty"
  shows "parse_run s [InArray xs] (entry_tokens b @ rest) =
           parse_run EndValue [InArray (xs @ [entry_json b])] rest"
  using assms
  by (auto simp: entry_tokens_def entry_json_def begin_value_def begin_string_def
        pushParseState_def maxNestingDepth_def close_object_def)

lemma parse_entries:
  assumes "s = BeginValue \<or> s = BeginValueOrEmpty" and "bs \<noteq> []"
  shows "parse_run s [InArray xs] (entries_tokens bs @ rest) =
           parse_run EndValue [InArray (xs @ map entry_json bs)] rest"
  using assms
proof (induction bs arbitrary: s xs rule: entries_tokens.induct)
  case 1
  then show ?case by simp
next
  case (2 b)
  then show ?case by (simp add: parse_entry)
next
  case (3 b b' bs)
  have "parse_run s [InArray xs] (entries_tokens (b # b' # bs) @ rest) =
        parse_run s [InArray xs] (entry_tokens b @ (TComma # entries_tokens (b' # bs) @ rest))"
    by simp
  also have "\<dots> = parse_run EndValue [InArray (xs @ [entry_json b])]
                      (TComma # entries_tokens (b' # bs) @ rest)"
    by (rule parse_entry[OF "3.prems"(1)])
  also have "\<dots> = parse_run BeginValue [InArray (xs @ [entry_json b])]
                      (entries_tokens (b' # bs) @ rest)"
    by simp
  also have "\<dots> = parse_run EndValue [InArray ((xs @ [entry_json b]) @ map entry_json (b' # bs))] rest"
    by (rule "3.IH") simp_all
  finally show ?case by simp
qed

lemma parse_bracketed:
  "parse_run BeginValue [] (TLBracket # entries_tokens bs @ [TRBracket]) =
     Some (JArray (map entry_json bs))"
proof (cases "bs = []")
  case True
  then show ?thesis
    by (simp add: begin_value_def pushParseState_def maxNestingDepth_def close_array_def)
next
  case False
  have "parse_run BeginValue [] (TLBracket # entries_tokens bs @ [TRBracket]) =
        parse_run BeginValueOrEmpty [InArray []] (entries_tokens bs @ [TRBracket])"
    by (simp add: begin_value_def pushParseState_def maxNestingDepth_def)
  also have "\<dots> = parse_run EndValue [InArray ([] @ map entry_json bs)] [TRBracket]"
    by (rule parse_entries) (simp_all add: False)
  finally show ?thesis
    by (simp add: close_array_def)
qed

lemma checkValid_bracketed:
  "list_all plain_entry bs \<Longrightarrow>
     checkValid (''['' @ Join (map entry_text bs) '','' @ '']'') = Some (JArray (map entry_json bs))"
  by (simp only: checkValid_def lex_bracketed option.case parse_bracketed)

subsection \<open>The stores\<close>

lemma unquote_keys:
  "unquote ''column'' = Some ''column''" "unquote ''path'' = Some ''path''"
  "unquote ''datatype'' = Some ''datatype''" "unquote ''transform'' = Some ''transform''"
  by code_simp+

lemma find_field_keys:
  "find_field ''column'' = Some FColumn" "find_field ''path'' = Some FPath"
  "find_field ''datatype'' = Some FDataType" "find_field ''transform'' = Some FTransform"
  by code_simp+

lemma store_struct_entry:
  assumes "plain_entry b"
  shows "store_struct (entry_json b) saved zeroMapping = Inr (saved, entry_mapping b)"
proof -
  from assms have p: "unquote (string_at b ''column'') = Some (string_at b ''column'')"
    "unquote (string_at b ''path'') = Some (string_at b ''path'')"
    "unquote (string_at b ''datatype'') = Some (string_at b ''datatype'')"
    "unquote (string_at b ''transform'') = Some (string_at b ''transform'')"
    by (simp_all add: plain_entry_def unquote_plain)
  show ?thesis
    by (simp add: entry_json_def entry_mapping_def zeroMapping_def unquote_or_panic_def
          unquote_keys find_field_keys p)
qed

lemma store_elems_entries:
  "list_all plain_entry bs \<Longrightarrow>
     store_elems (map entry_json bs) saved out = Inr (saved, out @ map entry_mapping bs)"
  by (induction bs arbitrary: out) (simp_all add: store_struct_entry)

lemma flatten_loop_map:
  "flatten_loop ms acc = acc @ map (\<lambda>m. Block (flatten_block m)) ms"
  by (induction ms arbitrary: acc) simp_all

lemma flatten_block_entry: "flatten_block (entry_mapping b) = read_back b"
  by (simp add: flatten_block_def entry_mapping_def read_back_def)

lemma Unmarshal_bracketed:
  "list_all plain_entry bs \<Longrightarrow>
     Unmarshal (''['' @ Join (map entry_text bs) '','' @ '']'') = Inr (None, map entry_mapping bs)"
  by (simp only: Unmarshal_def checkValid_bracketed option.case store_slice.simps
        store_elems_entries append_Nil)

lemma roundtrip_core:
  assumes "list_all plain_entry bs"
  shows "flattenTableMapping (''['' @ Join (map entry_text bs) '','' @ '']'') =
           Inr (map (\<lambda>b. Block (read_back b)) bs)"
proof -
  have "length (''['' @ Join (map entry_text bs) '','' @ '']'') \<noteq> 0"
    by simp
  then show ?thesis
    unfolding flattenTableMapping_def Unmarshal_bracketed[OF assms]
    by (simp add: flatten_loop_map flatten_block_entry comp_def)
qed

lemma read_back_same:
  assumes "typed_entry b" and "dom b \<subseteq> {''column'', ''path'', ''datatype'', ''transform''}"
  shows "read_back b = b(''transform'' \<mapsto> TFString (string_at b ''transform''))"
proof (rule ext)
  fix k
  show "read_back b k = (b(''transform'' \<mapsto> TFString (string_at b ''transform''))) k"
  proof (cases "k \<in> {''column'', ''path'', ''datatype'', ''transform''}")
    case True
    with assms(1) show ?thesis
      by (auto simp: read_back_def typed_entry_def is_string_at_def string_at_def
               split: option.splits tfvalue.splits)
  next
    case False
    with assms(2) have "b k = None" by auto
    with False show ?thesis by (simp add: read_back_def)
  qed
qed

lemma bracketed_round_trip:
  assumes "list_all plain_entry bs"
    and "list_all (\<lambda>b. dom b \<subseteq> {''column'', ''path'', ''datatype'', ''transform''}) bs"
  shows "flatten_of_bracketed (map Block bs) =
           Inr (map (\<lambda>b. Block (b(''transform'' \<mapsto> TFString (string_at b ''transform'')))) bs)"
proof -
  from assms(1) have t: "list_all typed_entry bs"
    by (simp add: list_all_iff plain_entry_def)
  have eq: "map (\<lambda>b. Block (read_back b)) bs =
        map (\<lambda>b. Block (b(''transform'' \<mapsto> TFString (string_at b ''transform'')))) bs"
    using assms by (intro map_cong refl) (simp add: list_all_iff plain_entry_def read_back_same)
  have "flatten_of_bracketed (map Block bs) =
        flattenTableMapping (''['' @ Join (map entry_text bs) '','' @ '']'')"
    by (simp only: flatten_of_bracketed_def expandTableMapping_typed[OF t] sum.case)
  also have "\<dots> = Inr (map (\<lambda>b. Block (read_back b)) bs)"
    by (rule roundtrip_core[OF assms(1)])
  finally show ?thesis
    by (simp only: eq)
qed

subsection \<open>The round trip\<close>

lemma Unmarshal_object:
  \<open>Unmarshal ''{"column":"a","path":"$.a","datatype":"string"}'' =
     Inr (Some (UnmarshalTypeError ''object''), [])\<close>
  by code_simp

lemma Unmarshal_newline:
  \<open>Unmarshal (''[{"column":"'' @ [CHR 0x0A] @ ''","path":"$.a","datatype":"string"}]'') =
     Inr (Some SyntaxError, [])\<close>
  by code_simp

text \<open>
  C10 (amended): for every list of entries with the four keys at most, string column, path
  and datatype (empty strings among them), whose field values hold no quote, no backslash,
  no control byte and are well-formed UTF-8, flattening the expansion between brackets
  gives the entries back in their order, with transform set to the empty string where the
  entry had none.
\<close>

theorem C10_bracketed_round_trip:
  assumes "list_all plain_entry bs"
    and "list_all (\<lambda>b. dom b \<subseteq> {''column'', ''path'', ''datatype'', ''transform''}) bs"
  shows "flatten_of_bracketed (map Block bs) =
           Inr (map (\<lambda>b. Block (b(''transform'' \<mapsto> TFString (string_at b ''transform'')))) bs)"
  using assms by (rule bracketed_round_trip)

lemma DecodeRune_ascii: "byte c < 0x80 \<Longrightarrow> DecodeRune (c # cs) = (byte c, 1)"
  by simp

lemma Valid_ascii: "list_all (\<lambda>c. byte c < 0x80) s \<Longrightarrow> Valid s"
  by (induction s) (simp_all add: RuneError_def DecodeRune_ascii del: DecodeRune.simps)

lemma plain_ascii:
  "list_all (\<lambda>c. c \<noteq> quote \<and> c \<noteq> backslash \<and> \<not> byte c < 0x20 \<and> byte c < 0x80) s \<Longrightarrow> plain s"
  unfolding plain_def by (intro conjI Valid_ascii) (simp_all add: list_all_iff)

lemma plain_examples:
  "plain []" "plain ''a''" "plain ''$.a''" "plain ''string''" "plain ''b''" "plain ''$.b''"
  "plain ''int''" "plain ''DateTimeFromUnixSeconds''"
  by (rule plain_ascii, code_simp)+

lemma plain_e_acute: "plain [CHR 0xC3, CHR 0xA9]"
  by (simp add: plain_def RuneError_def byte_def quote_def backslash_def)

theorem C10_bracketed_round_trip_witness:
  "flatten_of_bracketed
     [Block [''column'' \<mapsto> TFString [], ''path'' \<mapsto> TFString ''$.a'',
             ''datatype'' \<mapsto> TFString ''string''],
      Block [''column'' \<mapsto> TFString [CHR 0xC3, CHR 0xA9], ''path'' \<mapsto> TFString ''$.b'',
             ''datatype'' \<mapsto> TFString ''int'',
             ''transform'' \<mapsto> TFString ''DateTimeFromUnixSeconds'']]
   = Inr [Block [''column'' \<mapsto> TFString [], ''path'' \<mapsto> TFString ''$.a'',
                 ''datatype'' \<mapsto> TFString ''string'', ''transform'' \<mapsto> TFString []],
          Block [''column'' \<mapsto> TFString [CHR 0xC3, CHR 0xA9], ''path'' \<mapsto> TFString ''$.b'',
                 ''datatype'' \<mapsto> TFString ''int'',
                 ''transform'' \<mapsto> TFString ''DateTimeFromUnixSeconds'']]"
  using C10_bracketed_round_trip [of
     "[[''column'' \<mapsto> TFString [], ''path'' \<mapsto> TFString ''$.a'',
        ''datatype'' \<mapsto> TFString ''string''],
       [''column'' \<mapsto> TFString [CHR 0xC3, CHR 0xA9], ''path'' \<mapsto> TFString ''$.b'',
        ''datatype'' \<mapsto> TFString ''int'',
        ''transform'' \<mapsto> TFString ''DateTimeFromUnixSeconds'']]"]
  by (simp add: plain_entry_def typed_entry_def is_string_at_def string_at_def plain_examples
        plain_e_acute)

text \<open>
  C1 (amended): for every list of entries with non-empty column, path and datatype whose
  field values hold no quote, no backslash, no control byte and are well-formed UTF-8,
  flattening the expansion between the brackets of the Create/Update template gives the
  entries back in their order, with an absent transform read back as the empty string.
\<close>

theorem C1_round_trip_needs_brackets:
  assumes "list_all plain_entry bs"
    and "list_all (\<lambda>b. dom b \<subseteq> {''column'', ''path'', ''datatype'', ''transform''}) bs"
    and "list_all (\<lambda>b. string_at b ''column'' \<noteq> [] \<and> string_at b ''path'' \<noteq> []
                         \<and> string_at b ''datatype'' \<noteq> []) bs"
  shows "flatten_of_bracketed (map Block bs) =
           Inr (map (\<lambda>b. Block (b(''transform'' \<mapsto> TFString (string_at b ''transform'')))) bs)"
  using assms(1,2) by (rule bracketed_round_trip)

theorem C1_round_trip_needs_brackets_witness:
  "flatten_of_bracketed
     [Block [''column'' \<mapsto> TFString ''a'', ''path'' \<mapsto> TFString ''$.a'',
             ''datatype'' \<mapsto> TFString ''string'', ''transform'' \<mapsto> TFString []],
      Block [''column'' \<mapsto> TFString ''b'', ''path'' \<mapsto> TFString ''$.b'',
             ''datatype'' \<mapsto> TFString ''int'',
             ''transform'' \<mapsto> TFString ''DateTimeFromUnixSeconds'']]
   = Inr [Block [''column'' \<mapsto> TFString ''a'', ''path'' \<mapsto> TFString ''$.a'',
                 ''datatype'' \<mapsto> TFString ''string'', ''transform'' \<mapsto> TFString []],
          Block [''column'' \<mapsto> TFString ''b'', ''path'' \<mapsto> TFString ''$.b'',
                 ''datatype'' \<mapsto> TFString ''int'',
                 ''transform'' \<mapsto> TFString ''DateTimeFromUnixSeconds'']]"
  using C1_round_trip_needs_brackets [of
     "[[''column'' \<mapsto> TFString ''a'', ''path'' \<mapsto> TFString ''$.a'',
        ''datatype'' \<mapsto> TFString ''string'', ''transform'' \<mapsto> TFString []],
       [''column'' \<mapsto> TFString ''b'', ''path'' \<mapsto> TFString ''$.b'',
        ''datatype'' \<mapsto> TFString ''int'',
        ''transform'' \<mapsto> TFString ''DateTimeFromUnixSeconds'']]"]
  by (simp add: plain_entry_def typed_entry_def is_string_at_def string_at_def plain_examples)

lemma quote_free_examples:
  "quote_free []" "quote_free ''a''" "quote_free ''$.a''" "quote_free ''string''"
  "quote_free [CHR 0x0A]" "quote_free [CHR 0xFF]"
  by code_simp+

lemma unquote_invalid_utf8: "unquote [CHR 0xFF] = Some [CHR 0xEF, CHR 0xBF, CHR 0xBD]"
  by (simp add: unquote_def byte_def RuneError_def EncodeRune_def quote_def backslash_def
        char_of_def bit_iff_odd)

lemma unquote_examples: "unquote ''$.a'' = Some ''$.a''" "unquote ''string'' = Some ''string''"
  by code_simp+

lemma checkValid_invalid_utf8:
  \<open>checkValid (''[{"column":"'' @ [CHR 0xFF] @ ''","path":"$.a","datatype":"string"}]'') =
     Some (JArray [JObject [(''column'', JString [CHR 0xFF]), (''path'', JString ''$.a''),
                            (''datatype'', JString ''string'')]])\<close>
  by code_simp

lemma Unmarshal_invalid_utf8:
  \<open>Unmarshal (''[{"column":"'' @ [CHR 0xFF] @ ''","path":"$.a","datatype":"string"}]'') =
     Inr (None, [\<lparr>Column = [CHR 0xEF, CHR 0xBF, CHR 0xBD], Path = ''$.a'',
                  DataType = ''string'', Transform = []\<rparr>])\<close>
  unfolding Unmarshal_def checkValid_invalid_utf8
  by (simp add: unquote_or_panic_def unquote_invalid_utf8 unquote_examples unquote_keys
        find_field_keys zeroMapping_def)

text \<open>
  C1 as stated fails at the first example of the specification: the expansion of one
  entry is a JSON object, the decoder reports a type error for the slice and stores
  nothing, and \<^verbatim>\<open>flatten(expand(entries))\<close> is the empty list.
\<close>

theorem C1_unbracketed_counterexample:
  "quote_free_entry [''column'' \<mapsto> TFString ''a'', ''path'' \<mapsto> TFString ''$.a'',
                     ''datatype'' \<mapsto> TFString ''string'', ''transform'' \<mapsto> TFString []]
   \<and> flatten_of_expand
       [Block [''column'' \<mapsto> TFString ''a'', ''path'' \<mapsto> TFString ''$.a'',
               ''datatype'' \<mapsto> TFString ''string'', ''transform'' \<mapsto> TFString []]] = Inr []
   \<and> flatten_of_expand
       [Block [''column'' \<mapsto> TFString ''a'', ''path'' \<mapsto> TFString ''$.a'',
               ''datatype'' \<mapsto> TFString ''string'', ''transform'' \<mapsto> TFString []]]
     \<noteq> Inr [Block [''column'' \<mapsto> TFString ''a'', ''path'' \<mapsto> TFString ''$.a'',
               ''datatype'' \<mapsto> TFString ''string'', ''transform'' \<mapsto> TFString []]]"
  using Unmarshal_object
  by (simp add: flatten_of_expand_def expandTableMapping_def assert_string_def
        flattenTableMapping_def quote_free_entry_def typed_entry_def is_string_at_def
        string_at_def quote_free_examples)

text \<open>
  C10 as stated fails at an entry whose column is a newline: the expansion has a control
  byte inside a string literal, the scanner rejects the input and the result is the empty
  list. It fails too at a column that is the byte FF: the decoder replaces the malformed
  UTF-8 by U+FFFD.
\<close>

theorem C10_control_byte_counterexample:
  "quote_free_entry [''column'' \<mapsto> TFString [CHR 0x0A], ''path'' \<mapsto> TFString ''$.a'',
                     ''datatype'' \<mapsto> TFString ''string'']
   \<and> flatten_of_bracketed
       [Block [''column'' \<mapsto> TFString [CHR 0x0A], ''path'' \<mapsto> TFString ''$.a'',
               ''datatype'' \<mapsto> TFString ''string'']] = Inr []
   \<and> quote_free_entry [''column'' \<mapsto> TFString [CHR 0xFF], ''path'' \<mapsto> TFString ''$.a'',
                       ''datatype'' \<mapsto> TFString ''string'']
   \<and> flatten_of_bracketed
       [Block [''column'' \<mapsto> TFString [CHR 0xFF], ''path'' \<mapsto> TFString ''$.a'',
               ''datatype'' \<mapsto> TFString ''string'']]
     = Inr [Block [''column'' \<mapsto> TFString [CHR 0xEF, CHR 0xBF, CHR 0xBD],
                   ''path'' \<mapsto> TFString ''$.a'', ''datatype'' \<mapsto> TFString ''string'',
                   ''transform'' \<mapsto> TFString []]]"
  using Unmarshal_newline Unmarshal_invalid_utf8
  by (simp add: flatten_of_bracketed_def expandTableMapping_def assert_string_def
        flattenTableMapping_def quote_free_entry_def typed_entry_def is_string_at_def
        string_at_def quote_free_examples flatten_block_def)

section \<open>The decoder never fails\<close>

subsection \<open>Every literal the scanner accepts can be unquoted\<close>

lemma body_ok_drop_high:
  "body_ok s \<Longrightarrow> list_all (\<lambda>c. \<not> byte c < 0x80) (take n s) \<Longrightarrow> body_ok (drop n s)"
proof (induction n arbitrary: s)
  case 0
  then show ?case by simp
next
  case (Suc n)
  show ?case
  proof (cases s)
    case Nil
    then show ?thesis by simp
  next
    case (Cons c cs)
    with Suc.prems(2) have "\<not> byte c < 0x80" by simp
    then have "c \<noteq> backslash" by (auto simp: backslash_def byte_def)
    with Suc.prems Cons have "body_ok cs" "list_all (\<lambda>c. \<not> byte c < 0x80) (take n cs)"
      by simp_all
    with Cons show ?thesis by (simp add: Suc.IH)
  qed
qed

lemma DecodeRune_high:
  assumes "DecodeRune (c # cs) = (rr, w)" and "\<not> byte c < 0x80"
  shows "list_all (\<lambda>c. \<not> byte c < 0x80) (take w (c # cs))"
proof -
  consider "w = 1" | "w = 2" "cs \<noteq> []" "\<not> byte (cs ! 0) < 0x80"
    | "w = 3" "2 \<le> length cs" "\<not> byte (cs ! 0) < 0x80" "\<not> byte (cs ! 1) < 0x80"
    | "w = 4" "3 \<le> length cs" "\<not> byte (cs ! 0) < 0x80" "\<not> byte (cs ! 1) < 0x80"
        "\<not> byte (cs ! 2) < 0x80"
    using assms by (auto simp: Let_def Suc_le_eq split: if_splits)
  then show ?thesis
  proof cases
    case 1
    with assms(2) show ?thesis by simp
  next
    case 2
    then obtain a as where "cs = a # as" by (cases cs) auto
    with 2 assms(2) show ?thesis by (simp add: numeral_2_eq_2)
  next
    case 3
    then obtain a b bs where "cs = a # b # bs"
      by (cases cs; cases "tl cs") auto
    with 3 assms(2) show ?thesis by (simp add: numeral_3_eq_3)
  next
    case 4
    then obtain a b d ds where "cs = a # b # d # ds"
      by (cases cs; cases "tl cs"; cases "tl (tl cs)") auto
    with 4 assms(2) show ?thesis by (simp add: eval_nat_numeral)
  qed
qed

lemma body_ok_drop_rune:
  assumes "body_ok (c # cs)" and "DecodeRune (c # cs) = (rr, w)" and "\<not> byte c < 0x80"
  shows "body_ok (drop w (c # cs))"
  using body_ok_drop_high[OF assms(1) DecodeRune_high[OF assms(2,3)]] .

lemma body_ok_plain_prefix: "body_ok s \<Longrightarrow> body_ok (drop (plain_prefix s) s)"
proof (induction s rule: plain_prefix.induct)
  case 1
  show ?case by simp
next
  case (2 c cs)
  show ?case
  proof (cases "c = backslash \<or> c = quote \<or> byte c < 0x20")
    case True
    with "2.prems" show ?thesis by (simp del: body_ok.simps)
  next
    case stop: False
    show ?thesis
    proof (cases "byte c < 0x80")
      case True
      from "2.prems" stop have "body_ok cs" by simp
      from "2.IH"(1)[OF stop True this] stop True show ?thesis
        by (simp del: body_ok.simps)
    next
      case False
      obtain rr w where d: "DecodeRune (c # cs) = (rr, w)"
        by (cases "DecodeRune (c # cs)")
      show ?thesis
      proof (cases "rr = RuneError \<and> w = 1")
        case True
        with stop False d "2.prems" show ?thesis
          by (simp del: body_ok.simps DecodeRune.simps)
      next
        case nerr: False
        have ok: "body_ok (drop w (c # cs))"
          by (rule body_ok_drop_rune[OF "2.prems" d False])
        from DecodeRune_width[OF d] have w: "0 < w" "w \<le> length (c # cs)" by simp_all
        from "2.IH"(2)[OF stop False d[symmetric] nerr ok]
        have "body_ok (drop (plain_prefix (drop w (c # cs))) (drop w (c # cs)))" .
        with stop False d nerr w show ?thesis
          by (auto simp del: body_ok.simps DecodeRune.simps drop_Suc_Cons simp add: add.commute)
      qed
    qed
  qed
qed

lemma hexdigits_Some: "list_all isHex hs \<Longrightarrow> \<exists>r'. hexdigits r hs = Some r'"
  by (induction hs arbitrary: r) (auto simp: isHex_def)

lemma getu4_Some:
  assumes "4 \<le> length rest" and "list_all isHex (take 4 rest)"
  shows "\<exists>rr. getu4 (backslash # CHR ''u'' # rest) = Some rr"
  using assms hexdigits_Some[of "take 4 rest" 0] by (simp add: getu4_def)

lemma getu4_shape:
  assumes "getu4 s = Some r"
  shows "\<exists>rest. s = backslash # CHR ''u'' # rest \<and> 4 \<le> length rest"
proof -
  from assms have l: "6 \<le> length s" and a: "s ! 0 = backslash" and b: "s ! 1 = CHR ''u''"
    by (auto simp: getu4_def split: if_splits)
  then obtain x y rest where s: "s = x # y # rest"
    by (cases s; cases "tl s") auto
  with l a b show ?thesis by simp
qed

lemma isEscape_simple: "isEscape e \<Longrightarrow> \<exists>b. simple_escape e = Some b"
  by (auto simp: isEscape_def simple_escape_def)

lemma isEscape_not_u: "isEscape e \<Longrightarrow> e \<noteq> CHR ''u''"
  by (auto simp: isEscape_def backslash_def quote_def)

lemma unquote_loop_total: "body_ok s \<Longrightarrow> \<exists>t. unquote_loop s = Some t"
proof (induction "length s" arbitrary: s rule: less_induct)
  case less
  show ?case
  proof (cases s)
    case Nil
    then show ?thesis by simp
  next
    case (Cons c cs)
    note IH = less.hyps
    show ?thesis
    proof (cases "c = backslash")
      case bs: True
      with less.prems Cons obtain e rest where cs: "cs = e # rest"
        by (cases cs) auto
      show ?thesis
      proof (cases "e = CHR ''u''")
        case u: True
        with less.prems Cons bs cs have len: "4 \<le> length rest"
          and hex: "list_all isHex (take 4 rest)" and ok4: "body_ok (drop 4 rest)"
          by simp_all
        from getu4_Some[OF len hex] obtain rr where g: "getu4 (backslash # CHR ''u'' # rest) = Some rr"
          by blast
        have d6: "drop 6 (c # cs) = drop 4 rest"
          by (simp add: cs)
        have t6: "\<exists>t. unquote_loop (drop 6 (c # cs)) = Some t"
          unfolding d6 by (rule IH) (simp_all add: Cons cs ok4)
        have t12: "\<exists>t. unquote_loop (drop 12 (c # cs)) = Some t"
          if "getu4 (drop 6 (c # cs)) = Some r2" for r2
        proof -
          from getu4_shape[OF that] obtain rest2
            where r2: "drop 4 rest = backslash # CHR ''u'' # rest2" and l2: "4 \<le> length rest2"
            unfolding d6 by blast
          from ok4 r2 have ok: "body_ok (drop 4 rest2)" by simp
          have "drop 12 (c # cs) = drop 6 (drop 4 rest)"
            by (simp add: cs)
          also have "\<dots> = drop 4 rest2"
            by (simp add: r2)
          finally have d12: "drop 12 (c # cs) = drop 4 rest2" .
          have "length rest2 < length (drop 4 rest)" by (simp add: r2)
          then have "length (drop 4 rest2) < length s"
            by (simp add: Cons cs)
          from IH[OF this ok] show ?thesis by (simp only: d12)
        qed
        show ?thesis
        proof (cases "getu4 (drop 6 (c # cs))")
          case None
          with t6 g bs u cs Cons show ?thesis
            by (auto simp: utf16_DecodeRune_def Let_def simp del: drop_Suc_Cons)
        next
          case (Some r2)
          from t12[OF Some] t6 g bs u cs Cons Some show ?thesis
            by (auto simp: Let_def simp del: drop_Suc_Cons)
        qed
      next
        case nu: False
        with less.prems Cons bs cs have esc: "isEscape e" and ok: "body_ok rest"
          by simp_all
        from isEscape_simple[OF esc] obtain b where b: "simple_escape e = Some b" by blast
        have "\<exists>t. unquote_loop rest = Some t"
          by (rule IH) (simp_all add: Cons cs ok)
        with bs nu cs Cons b show ?thesis by auto
      qed
    next
      case nbs: False
      with less.prems Cons have q: "c \<noteq> quote" "\<not> byte c < 0x20" and ok: "body_ok cs"
        by simp_all
      show ?thesis
      proof (cases "byte c < 0x80")
        case True
        have "\<exists>t. unquote_loop cs = Some t"
          by (rule IH) (simp_all add: Cons ok)
        with nbs q True Cons show ?thesis by auto
      next
        case False
        obtain rr w where d: "DecodeRune (c # cs) = (rr, w)"
          by (cases "DecodeRune (c # cs)")
        from DecodeRune_width[OF d] have w: "0 < w" by simp
        have okw: "body_ok (drop w (c # cs))"
          using body_ok_drop_rune[OF _ d False] less.prems Cons by simp
        have "\<exists>t. unquote_loop (drop w (c # cs)) = Some t"
          by (rule IH) (use w Cons okw in simp_all)
        with nbs q False Cons d show ?thesis
          by (auto simp del: DecodeRune.simps drop_Suc_Cons)
      qed
    qed
  qed
qed

lemma unquote_total: "body_ok s \<Longrightarrow> \<exists>t. unquote s = Some t"
  using unquote_loop_total[OF body_ok_plain_prefix, of s]
  by (auto simp: unquote_def Let_def)

subsection \<open>The scanner hands on only such literals\<close>

lemma body_ok_append: "body_ok p \<Longrightarrow> body_ok q \<Longrightarrow> body_ok (p @ q)"
proof (induction p rule: body_ok.induct)
  case 1
  then show ?case by simp
next
  case (2 c cs)
  show ?case
  proof (cases "c = backslash")
    case False
    with 2 show ?thesis by simp
  next
    case bs: True
    with "2.prems" obtain e rest where cs: "cs = e # rest" by (cases cs) auto
    show ?thesis
    proof (cases "e = CHR ''u''")
      case True
      with "2.prems" bs cs have l: "4 \<le> length rest" and h: "list_all isHex (take 4 rest)"
        and ok: "body_ok (drop 4 rest)" by simp_all
      from "2.IH"(1)[OF bs cs True ok "2.prems"(2)] have "body_ok (drop 4 rest @ q)" .
      with bs cs True l h show ?thesis by simp
    next
      case False
      with "2.prems" bs cs have "isEscape e" "body_ok rest" by simp_all
      with "2.IH"(2)[OF bs cs False] "2.prems"(2) bs cs False show ?thesis by simp
    qed
  qed
qed

lemma body_ok_plain_byte:
  "c \<noteq> quote \<Longrightarrow> c \<noteq> backslash \<Longrightarrow> \<not> byte c < 0x20 \<Longrightarrow> body_ok [c]"
  by simp

lemma body_ok_escape: "isEscape e \<Longrightarrow> body_ok [backslash, e]"
  by (simp add: isEscape_not_u)

lemma body_ok_u4:
  "length hs = 4 \<Longrightarrow> list_all isHex hs \<Longrightarrow> body_ok (backslash # CHR ''u'' # hs)"
  by simp

lemma st_ok_string_step:
  "body_ok raw \<Longrightarrow> c \<noteq> quote \<Longrightarrow> c \<noteq> backslash \<Longrightarrow> \<not> byte c < 0x20 \<Longrightarrow> body_ok (raw @ [c])"
  by (rule body_ok_append) simp_all

lemma st_ok_esc_step:
  "body_ok p \<Longrightarrow> isEscape c \<Longrightarrow> body_ok (p @ [backslash, c])"
  using body_ok_append[OF _ body_ok_escape, of p c] by simp

lemma st_ok_u_step:
  "body_ok p \<Longrightarrow> length hs = 3 \<Longrightarrow> list_all isHex hs \<Longrightarrow> isHex c \<Longrightarrow>
     body_ok (p @ backslash # CHR ''u'' # hs @ [c])"
  using body_ok_append[OF _ body_ok_u4, of p "hs @ [c]"] by simp

lemma lexer_step:
  assumes "lexer st (c # cs) = Some toks" and "st_ok st"
  shows "\<exists>st' pre toks'. lexer st' cs = Some toks' \<and> toks = pre @ toks' \<and> st_ok st'
           \<and> list_all tok_ok pre"
proof (cases st)
  case Idle
  with assms(1) show ?thesis
    by (simp add: emit_def split: if_splits) (force intro: exI[of _ "[]"])+
next
  case (InString raw)
  with assms show ?thesis
    by (simp add: emit_def split: if_splits)
       (force intro: exI[of _ "[]"] simp: st_ok_string_step)+
next
  case (InStringEsc raw)
  with assms show ?thesis
    by (simp split: if_splits) (force intro: exI[of _ "[]"] simp: st_ok_esc_step)+
next
  case (InStringEscU k raw)
  from assms(2) InStringEscU obtain p hs where r: "raw = p @ backslash # CHR ''u'' # hs"
    "length hs = k" "k \<le> 3" "list_all isHex hs" "body_ok p" by auto
  from assms(1) InStringEscU have h: "isHex c" by (simp split: if_splits)
  show ?thesis
  proof (cases "k < 3")
    case True
    with assms(1) InStringEscU h have l: "lexer (InStringEscU (k + 1) (raw @ [c])) cs = Some toks"
      by simp
    have "st_ok (InStringEscU (k + 1) (raw @ [c]))"
      unfolding st_ok.simps
      by (rule exI[of _ p], rule exI[of _ "hs @ [c]"]) (use r True h in simp)
    with l show ?thesis
      by (intro exI[of _ "InStringEscU (k + 1) (raw @ [c])"] exI[of _ "[]::token list"] exI[of _ toks])
         simp
  next
    case False
    with assms(1) InStringEscU h have l: "lexer (InString (raw @ [c])) cs = Some toks"
      by simp
    from False r have "length hs = 3" by simp
    with r h have "st_ok (InString (raw @ [c]))"
      using st_ok_u_step[of p hs c] by simp
    with l show ?thesis
      by (intro exI[of _ "InString (raw @ [c])"] exI[of _ "[]::token list"] exI[of _ toks]) simp
  qed
next
  case Neg
  with assms(1) show ?thesis
    by (simp split: if_splits) (force intro: exI[of _ "[]"])+
next
  case Num1
  with assms(1) show ?thesis
    by (simp add: emit_def delim_def split: if_splits option.splits) (force intro: exI[of _ "[]"])+
next
  case Num0
  with assms(1) show ?thesis
    by (simp add: emit_def delim_def split: if_splits option.splits) (force intro: exI[of _ "[]"])+
next
  case Dot
  with assms(1) show ?thesis
    by (simp split: if_splits) (force intro: exI[of _ "[]"])+
next
  case Dot0
  with assms(1) show ?thesis
    by (simp add: emit_def delim_def split: if_splits option.splits) (force intro: exI[of _ "[]"])+
next
  case E
  with assms(1) show ?thesis
    by (simp split: if_splits) (force intro: exI[of _ "[]"])+
next
  case ESign
  with assms(1) show ?thesis
    by (simp split: if_splits) (force intro: exI[of _ "[]"])+
next
  case E0
  with assms(1) show ?thesis
    by (simp add: emit_def delim_def split: if_splits option.splits) (force intro: exI[of _ "[]"])+
next
  case (Lit t rest)
  show ?thesis
  proof (cases rest)
    case Nil
    with assms(1) Lit show ?thesis by simp
  next
    case (Cons x xs)
    show ?thesis
    proof (cases xs)
      case Nil
      with assms Lit Cons show ?thesis
        by (simp add: emit_def split: if_splits) (force intro: exI[of _ "[]"])+
    next
      case (Cons y ys)
      with assms Lit \<open>rest = x # xs\<close> show ?thesis
        by (simp split: if_splits) (force intro: exI[of _ "[]"])+
    qed
  qed
qed

lemma lexer_end_ok: "lexer st [] = Some toks \<Longrightarrow> list_all tok_ok toks"
  by (cases st) auto

lemma lexer_tokens_ok:
  "lexer st s = Some toks \<Longrightarrow> st_ok st \<Longrightarrow> list_all tok_ok toks"
proof (induction s arbitrary: st toks)
  case Nil
  then show ?case by (simp add: lexer_end_ok)
next
  case (Cons c cs)
  from lexer_step[OF Cons.prems] obtain st' pre toks'
    where "lexer st' cs = Some toks'" "toks = pre @ toks'" "st_ok st'" "list_all tok_ok pre"
    by blast
  with Cons.IH[of st' toks'] show ?case by simp
qed

subsection \<open>The stores\<close>

lemma end_value_ok:
  "end_value v st = Some (s', st') \<Longrightarrow> json_ok v \<Longrightarrow> list_all frame_ok st \<Longrightarrow>
     list_all frame_ok st' \<and> step_ok s'"
  by (cases "(v, st)" rule: end_value.cases) auto

lemma begin_value_ok:
  "begin_value t st = Some (s', st') \<Longrightarrow> tok_ok t \<Longrightarrow> list_all frame_ok st \<Longrightarrow>
     list_all frame_ok st' \<and> step_ok s'"
  by (cases t)
     (auto simp: begin_value_def pushParseState_def split: if_splits dest: end_value_ok)

lemma begin_string_ok:
  "begin_string t st = Some (s', st') \<Longrightarrow> tok_ok t \<Longrightarrow> list_all frame_ok st \<Longrightarrow>
     list_all frame_ok st' \<and> step_ok s'"
  by (cases t) (auto simp: begin_string_def split: list.splits frame.splits)

lemma close_array_ok:
  "close_array st = Some (s', st') \<Longrightarrow> list_all frame_ok st \<Longrightarrow>
     list_all frame_ok st' \<and> step_ok s'"
  by (auto simp: close_array_def split: list.splits frame.splits dest: end_value_ok)

lemma close_object_ok:
  "close_object st = Some (s', st') \<Longrightarrow> list_all frame_ok st \<Longrightarrow>
     list_all frame_ok st' \<and> step_ok s'"
  by (auto simp: close_object_def split: list.splits frame.splits dest: end_value_ok)

lemma parse_step_ok:
  "parse_step s st t = Some (s', st') \<Longrightarrow> tok_ok t \<Longrightarrow> list_all frame_ok st \<Longrightarrow>
     list_all frame_ok st' \<and> step_ok s'"
  by (cases s)
     (auto split: if_splits list.splits frame.splits
           dest: begin_value_ok begin_string_ok close_array_ok close_object_ok)

lemma parse_run_ok:
  "parse_run s st ts = Some v \<Longrightarrow> list_all tok_ok ts \<Longrightarrow> list_all frame_ok st \<Longrightarrow>
     step_ok s \<Longrightarrow> json_ok v"
proof (induction ts arbitrary: s st)
  case Nil
  then show ?case by (cases s) auto
next
  case (Cons t ts)
  from Cons.prems(1) obtain s' st' where p: "parse_step s st t = Some (s', st')"
    and r: "parse_run s' st' ts = Some v"
    by (auto split: option.splits)
  from parse_step_ok[OF p] Cons.prems have "list_all frame_ok st'" "step_ok s'" by simp_all
  with Cons.IH[OF r] Cons.prems(2) show ?case by simp
qed

lemma checkValid_ok: "checkValid s = Some v \<Longrightarrow> json_ok v"
  by (auto simp: checkValid_def split: option.splits
           dest!: lexer_tokens_ok intro: parse_run_ok)

lemma unquote_or_panic_ok: "body_ok raw \<Longrightarrow> \<exists>s. unquote_or_panic raw = Inr s"
  using unquote_total[of raw] by (auto simp: unquote_or_panic_def)

lemma store_string_ok: "json_ok v \<Longrightarrow> \<exists>a b. store_string v saved cur = Inr (a, b)"
  by (cases v) (auto dest: unquote_or_panic_ok[where raw = "x"] split: sum.splits
                     simp: unquote_or_panic_def dest!: unquote_total)

lemma store_members_ok:
  "list_all (\<lambda>m. body_ok (fst m) \<and> json_ok (snd m)) ms \<Longrightarrow> \<exists>a b. store_members ms saved m = Inr (a, b)"
proof (induction ms arbitrary: saved m)
  case Nil
  show ?case by simp
next
  case (Cons x ms)
  obtain rawkey v where x: "x = (rawkey, v)" by (cases x)
  from Cons.prems x have k: "body_ok rawkey" and v: "json_ok v"
    and rest: "list_all (\<lambda>m. body_ok (fst m) \<and> json_ok (snd m)) ms" by simp_all
  from unquote_or_panic_ok[OF k] obtain key where key: "unquote_or_panic rawkey = Inr key" by blast
  show ?case
  proof (cases "find_field key")
    case None
    with key x Cons.IH[OF rest] show ?thesis by simp
  next
    case (Some f)
    from store_string_ok[OF v] obtain saved' s
      where "store_string v saved (get_field f m) = Inr (saved', s)" by blast
    with key x Some Cons.IH[OF rest, of saved' "set_field f s m"] show ?thesis by simp
  qed
qed

lemma store_struct_ok: "json_ok v \<Longrightarrow> \<exists>a b. store_struct v saved m = Inr (a, b)"
  by (cases v) (auto simp: store_members_ok unquote_or_panic_def dest!: unquote_total)

lemma store_elems_ok: "list_all json_ok xs \<Longrightarrow> \<exists>a b. store_elems xs saved out = Inr (a, b)"
proof (induction xs arbitrary: saved out)
  case Nil
  show ?case by simp
next
  case (Cons x xs)
  from store_struct_ok[of x saved zeroMapping] Cons.prems obtain saved' m
    where "store_struct x saved zeroMapping = Inr (saved', m)" by auto
  with Cons.IH[of saved' "out @ [m]"] Cons.prems show ?case by simp
qed

lemma store_slice_ok: "json_ok v \<Longrightarrow> \<exists>a b. store_slice v = Inr (a, b)"
  by (cases v) (auto simp: store_elems_ok unquote_or_panic_def dest!: unquote_total)

lemma Unmarshal_never_panics: "\<exists>err ms. Unmarshal data = Inr (err, ms)"
proof (cases "checkValid data")
  case None
  then show ?thesis by (simp add: Unmarshal_def)
next
  case (Some v)
  from store_slice_ok[OF checkValid_ok[OF Some]] Some show ?thesis
    by (simp add: Unmarshal_def)
qed

text \<open>
  C7: no input makes \<^verbatim>\<open>flattenTableMapping\<close> fail. The decoder does not panic:
  every string literal that the scanner accepted can be unquoted. The error that
  \<^verbatim>\<open>json.Unmarshal\<close> returns is dropped: on an input that is not valid JSON the
  result is the empty list, and on an input with a type error it is the list of what the
  decoder stored, with the zero value where a store was refused.
\<close>

theorem C7_flatten_never_fails:
  "(\<exists>items. flattenTableMapping s = Inr items)
   \<and> (s \<noteq> [] \<and> checkValid s = None \<longrightarrow> flattenTableMapping s = Inr [])
   \<and> (s \<noteq> [] \<and> Unmarshal s = Inr (Some e, ms)
        \<longrightarrow> flattenTableMapping s = Inr (map (\<lambda>m. Block (flatten_block m)) ms))"
proof (intro conjI impI)
  from Unmarshal_never_panics[of s] show "\<exists>items. flattenTableMapping s = Inr items"
    by (auto simp: flattenTableMapping_def)
next
  assume "s \<noteq> [] \<and> checkValid s = None"
  then show "flattenTableMapping s = Inr []"
    by (simp add: flattenTableMapping_def Unmarshal_def)
next
  assume "s \<noteq> [] \<and> Unmarshal s = Inr (Some e, ms)"
  then show "flattenTableMapping s = Inr (map (\<lambda>m. Block (flatten_block m)) ms)"
    by (simp add: flattenTableMapping_def flatten_loop_map)
qed

lemma checkValid_truncated: \<open>checkValid ''{"column"'' = None\<close>
  by code_simp

lemma Unmarshal_mistyped:
  \<open>Unmarshal ''[{"column":"a","path":5},7]'' =
     Inr (Some (UnmarshalTypeError ''number''),
          [\<lparr>Column = ''a'', Path = [], DataType = [], Transform = []\<rparr>,
           \<lparr>Column = [], Path = [], DataType = [], Transform = []\<rparr>])\<close>
  by code_simp

theorem C7_flatten_never_fails_witness:
  \<open>flattenTableMapping ''{"column"'' = Inr []
   \<and> flattenTableMapping ''[{"column":"a","path":5},7]'' =
       Inr [Block [''column'' \<mapsto> TFString ''a'', ''path'' \<mapsto> TFString [],
                   ''datatype'' \<mapsto> TFString [], ''transform'' \<mapsto> TFString []],
            Block [''column'' \<mapsto> TFString [], ''path'' \<mapsto> TFString [],
                   ''datatype'' \<mapsto> TFString [], ''transform'' \<mapsto> TFString []]]\<close>
  using C7_flatten_never_fails [of \<open>''{"column"''\<close>]
    C7_flatten_never_fails [of \<open>''[{"column":"a","path":5},7]''\<close> "UnmarshalTypeError ''number''"
      "[\<lparr>Column = ''a'', Path = [], DataType = [], Transform = []\<rparr>,
        \<lparr>Column = [], Path = [], DataType = [], Transform = []\<rparr>]"]
  by (simp add: checkValid_truncated Unmarshal_mistyped flatten_block_def)

end
